theory Spec2Isabelle
  imports Main
begin

section \<open>Data model\<close>

text \<open>
  The server keeps three collections of documents (users, posts, notes) in a document
  store. An identifier is modelled by its rendering as a string, which is what the
  route handlers compare (\<^verbatim>\<open>x.toString() === y.toString()\<close>). A collection is the
  list of its documents; a handler takes the database and returns the response together
  with the database after its writes.

  An identifier that arrives in the path of a request is a string that the store casts
  when it looks a document up. The post and note routes use the identifier of the post
  or note for that lookup only, and their models take it in the rendering of the stored
  identifier. The follow route also compares the path identifier as it was sent, so its
  model carries the cast.
\<close>

type_synonym oid = string

record user =
  user_id :: oid
  username :: string
  email :: string
  password :: string
  bio :: string
  avatar :: string
  followers :: "oid list"
  following :: "oid list"

record like =
  like_user :: oid

record comment =
  comment_id :: oid
  comment_user :: oid
  comment_content :: string

record post =
  post_id :: oid
  author :: oid
  post_content :: string
  likes :: "like list"
  comments :: "comment list"

record noteDoc =
  note_id :: oid
  note_user :: oid
  title :: string
  note_content :: string
  tags :: "string list"
  isPinned :: bool

record db =
  users :: "user list"
  posts :: "post list"
  noteDocs :: "noteDoc list"

text \<open>
  A response is the HTTP status with the JSON body. Bodies that carry a document carry
  it as stored; the resolution of references for display (\<^verbatim>\<open>populate\<close>) is not part of
  the model. A validation failure carries the messages of the failed validators in the
  order of the validation chain.
\<close>

datatype body =
    Message string
  | Errors "string list"
  | PostJson post
  | NoteJson noteDoc
  | AuthJson string oid string string string string
  | FollowJson string bool nat

type_synonym response = "nat \<times> body"

section \<open>Store and library primitives\<close>

definition findUserById :: "oid \<Rightarrow> db \<Rightarrow> user option" where
  "findUserById i d = find (\<lambda>u. user_id u = i) (users d)"

definition findPostById :: "oid \<Rightarrow> db \<Rightarrow> post option" where
  "findPostById i d = find (\<lambda>p. post_id p = i) (posts d)"

definition findNoteById :: "oid \<Rightarrow> db \<Rightarrow> noteDoc option" where
  "findNoteById i d = find (\<lambda>n. note_id n = i) (noteDocs d)"

text \<open>
  \<^verbatim>\<open>doc.save()\<close> of a loaded document writes the paths the handler has modified to the
  stored document of the same identifier. The follow route modifies \<^verbatim>\<open>following\<close> in
  the acting user's document and \<^verbatim>\<open>followers\<close> in the target's, and saves the two in
  that order. The post and note routes load one document, modify it and save it.
\<close>

definition saveFollowing :: "user \<Rightarrow> db \<Rightarrow> db" where
  "saveFollowing u d =
     d\<lparr>users := map (\<lambda>v. if user_id v = user_id u then v\<lparr>following := following u\<rparr> else v)
                    (users d)\<rparr>"

definition saveFollowers :: "user \<Rightarrow> db \<Rightarrow> db" where
  "saveFollowers u d =
     d\<lparr>users := map (\<lambda>v. if user_id v = user_id u then v\<lparr>followers := followers u\<rparr> else v)
                    (users d)\<rparr>"

definition savePost :: "post \<Rightarrow> db \<Rightarrow> db" where
  "savePost p d = d\<lparr>posts := map (\<lambda>q. if post_id q = post_id p then p else q) (posts d)\<rparr>"

definition saveNote :: "noteDoc \<Rightarrow> db \<Rightarrow> db" where
  "saveNote n d = d\<lparr>noteDocs := map (\<lambda>m. if note_id m = note_id n then n else m) (noteDocs d)\<rparr>"

text \<open>
  \<^verbatim>\<open>Array.prototype.findIndex\<close> gives the index of the first element that satisfies the
  predicate, and \<open>-1\<close> when there is none; \<^verbatim>\<open>xs.splice(i, 1)\<close> removes the element at
  index \<open>i\<close>.
\<close>

fun findIndex :: "('a \<Rightarrow> bool) \<Rightarrow> 'a list \<Rightarrow> int" where
  "findIndex P [] = - 1"
| "findIndex P (x # xs) =
     (if P x then 0 else (let i = findIndex P xs in if i = - 1 then - 1 else i + 1))"

definition splice1 :: "int \<Rightarrow> 'a list \<Rightarrow> 'a list" where
  "splice1 i xs = take (nat i) xs @ drop (nat i + 1) xs"

text \<open>
  The validators of express-validator read a field of the request body as a string; a
  field that is absent reads as the empty string. \<^verbatim>\<open>notEmpty()\<close> asks for a length of at
  least one and does not trim; \<^verbatim>\<open>isLength({min: n})\<close> asks for at least \<open>n\<close> characters;
  \<^verbatim>\<open>exists()\<close> asks for the field to be present.
\<close>

definition toString :: "string option \<Rightarrow> string" where
  "toString v = (case v of None \<Rightarrow> [] | Some s \<Rightarrow> s)"

definition notEmpty :: "string option \<Rightarrow> bool" where
  "notEmpty v = (toString v \<noteq> [])"

definition isLength :: "nat \<Rightarrow> string option \<Rightarrow> bool" where
  "isLength n v = (n \<le> length (toString v))"

definition exists_field :: "string option \<Rightarrow> bool" where
  "exists_field v = (v \<noteq> None)"

definition check :: "bool \<Rightarrow> string \<Rightarrow> string list" where
  "check ok msg = (if ok then [] else [msg])"

section \<open>Posts\<close>

text \<open>
  The gate of the like and comment routes, as the handlers compute it from the acting
  user's document, the document of the post's author, and the post.
\<close>

definition isFollowingOrFollower :: "user \<Rightarrow> user \<Rightarrow> post \<Rightarrow> oid \<Rightarrow> bool" where
  "isFollowingOrFollower currentUser postAuthor p uid =
     (author p \<in> set (following currentUser)
      \<or> uid \<in> set (followers postAuthor)
      \<or> author p = uid)"

text \<open>\<^verbatim>\<open>POST /api/posts/:id/like\<close>. The first argument is \<^verbatim>\<open>isValidObjectId\<close>.\<close>

definition toggleLike :: "(oid \<Rightarrow> bool) \<Rightarrow> oid \<Rightarrow> oid option \<Rightarrow> db \<Rightarrow> response \<times> db" where
  "toggleLike isValidObjectId pid reqUser d =
     (if \<not> isValidObjectId pid then ((400, Message ''Invalid post ID''), d)
      else case reqUser of
        None \<Rightarrow> ((401, Message ''User not authenticated''), d)
      | Some uid \<Rightarrow>
        (case findPostById pid d of
           None \<Rightarrow> ((404, Message ''Post not found''), d)
         | Some p \<Rightarrow>
           (case findUserById uid d of
              None \<Rightarrow> ((404, Message ''User not found''), d)
            | Some currentUser \<Rightarrow>
              (case findUserById (author p) d of
                 None \<Rightarrow> ((404, Message ''Post author not found''), d)
               | Some postAuthor \<Rightarrow>
                 if \<not> isFollowingOrFollower currentUser postAuthor p uid
                 then ((403, Message
                   ''You must follow this user or be their follower to like their posts''), d)
                 else
                   let likeIndex = findIndex (\<lambda>l. like_user l = uid) (likes p);
                       p' = (if likeIndex > - 1
                             then p\<lparr>likes := splice1 likeIndex (likes p)\<rparr>
                             else p\<lparr>likes := likes p @ [\<lparr>like_user = uid\<rparr>]\<rparr>)
                   in ((200, PostJson p'), savePost p' d)))))"

text \<open>
  Modelled from the spec: the defaults of the Post model (models/Post.js is not among
  the sources). The document the create route builds carries the author and the content
  it is given and has no like and no comment (the spec's example of creation:
  \<^verbatim>\<open>likes==[]\<close>, \<^verbatim>\<open>comments==[]\<close>).
\<close>

definition newPost :: "oid \<Rightarrow> oid \<Rightarrow> string \<Rightarrow> post" where
  "newPost newId uid c =
     \<lparr>post_id = newId, author = uid, post_content = c, likes = [], comments = []\<rparr>"

text \<open>
  \<^verbatim>\<open>POST /api/posts\<close>. \<open>newId\<close> is the identifier the store gives the new document;
  \<open>content\<close> is \<^verbatim>\<open>req.body.content\<close>, \<open>reqUser\<close> is \<^verbatim>\<open>req.user?._id\<close>.

  The route hands the content to the Post model as it is. What the model's schema does
  with it is not in the sources, so it is an argument: \<open>postSchema\<close> takes the document
  the route has built and gives the document as the schema stores it (after its
  setters), or \<open>None\<close> when its validators refuse the save. A refused save throws inside
  the handler's \<^verbatim>\<open>try\<close> and ends in the 500 response.
\<close>

definition createPost ::
  "(post \<Rightarrow> post option) \<Rightarrow> oid \<Rightarrow> string option \<Rightarrow> oid option \<Rightarrow> db \<Rightarrow> response \<times> db" where
  "createPost postSchema newId content reqUser d =
     (let errors = check (notEmpty content) ''Content is required''
      in if errors \<noteq> [] then ((400, Errors errors), d)
         else case reqUser of
           None \<Rightarrow> ((401, Message ''User not authenticated''), d)
         | Some uid \<Rightarrow>
           (case postSchema (newPost newId uid (toString content)) of
              None \<Rightarrow> ((500, Message ''Server error''), d)
            | Some p \<Rightarrow> ((201, PostJson p), d\<lparr>posts := posts d @ [p]\<rparr>)))"

text \<open>\<^verbatim>\<open>PUT /api/posts/:id\<close>, with the same \<open>postSchema\<close>.\<close>

definition updatePost ::
  "(post \<Rightarrow> post option) \<Rightarrow> (oid \<Rightarrow> bool) \<Rightarrow> oid \<Rightarrow> string option \<Rightarrow> oid option \<Rightarrow> db
     \<Rightarrow> response \<times> db" where
  "updatePost postSchema isValidObjectId pid content reqUser d =
     (let errors = check (notEmpty content) ''Content is required''
      in if errors \<noteq> [] then ((400, Errors errors), d)
         else if \<not> isValidObjectId pid then ((400, Message ''Invalid post ID''), d)
         else case findPostById pid d of
           None \<Rightarrow> ((404, Message ''Post not found''), d)
         | Some p \<Rightarrow>
           if reqUser = None \<or> Some (author p) \<noteq> reqUser
           then ((403, Message ''Not authorized''), d)
           else
             (case postSchema (p\<lparr>post_content := toString content\<rparr>) of
                None \<Rightarrow> ((500, Message ''Server error''), d)
              | Some p' \<Rightarrow> ((200, PostJson p'), savePost p' d)))"

text \<open>
  \<^verbatim>\<open>POST /api/posts/:id/comment\<close>. \<open>newId\<close> is the identifier the new comment gets
  inside the post.
\<close>

definition addComment ::
  "(oid \<Rightarrow> bool) \<Rightarrow> oid \<Rightarrow> oid \<Rightarrow> string option \<Rightarrow> oid option \<Rightarrow> db \<Rightarrow> response \<times> db" where
  "addComment isValidObjectId newId pid content reqUser d =
     (let errors = check (notEmpty content) ''Comment content is required''
      in if errors \<noteq> [] then ((400, Errors errors), d)
         else if \<not> isValidObjectId pid then ((400, Message ''Invalid post ID''), d)
         else case reqUser of
           None \<Rightarrow> ((401, Message ''User not authenticated''), d)
         | Some uid \<Rightarrow>
           (case findPostById pid d of
              None \<Rightarrow> ((404, Message ''Post not found''), d)
            | Some p \<Rightarrow>
              (case findUserById uid d of
                 None \<Rightarrow> ((404, Message ''User not found''), d)
               | Some currentUser \<Rightarrow>
                 (case findUserById (author p) d of
                    None \<Rightarrow> ((404, Message ''Post author not found''), d)
                  | Some postAuthor \<Rightarrow>
                    if \<not> isFollowingOrFollower currentUser postAuthor p uid
                    then ((403, Message
                      ''You must follow this user or be their follower to comment on their posts''), d)
                    else
                      let newComment = \<lparr>comment_id = newId, comment_user = uid,
                                          comment_content = toString content\<rparr>;
                          p' = p\<lparr>comments := comments p @ [newComment]\<rparr>
                      in ((200, PostJson p'), savePost p' d)))))"

text \<open>\<^verbatim>\<open>DELETE /api/posts/:postId/comments/:commentId\<close>.\<close>

definition deleteComment ::
  "(oid \<Rightarrow> bool) \<Rightarrow> oid \<Rightarrow> oid \<Rightarrow> oid option \<Rightarrow> db \<Rightarrow> response \<times> db" where
  "deleteComment isValidObjectId pid cid reqUser d =
     (if \<not> isValidObjectId pid \<or> \<not> isValidObjectId cid
      then ((400, Message ''Invalid ID format''), d)
      else case reqUser of
        None \<Rightarrow> ((401, Message ''User not authenticated''), d)
      | Some uid \<Rightarrow>
        (case findPostById pid d of
           None \<Rightarrow> ((404, Message ''Post not found''), d)
         | Some p \<Rightarrow>
           let commentIndex = findIndex (\<lambda>c. comment_id c = cid) (comments p)
           in if commentIndex = - 1 then ((404, Message ''Comment not found''), d)
              else if comment_user (comments p ! nat commentIndex) \<noteq> uid
              then ((403, Message ''Not authorized to delete this comment''), d)
              else
                let p' = p\<lparr>comments := splice1 commentIndex (comments p)\<rparr>
                in ((200, Message ''Comment deleted''), savePost p' d)))"

section \<open>Users\<close>

text \<open>
  \<^verbatim>\<open>POST /api/users/:id/follow\<close>. \<open>targetId\<close> is the \<^verbatim>\<open>id\<close> of the path, a string as
  the client sent it, and \<open>reqUser\<close> is \<^verbatim>\<open>req.user\<close>'s identifier. The route uses the
  path identifier in two ways. \<^verbatim>\<open>User.findById(id)\<close> and \<^verbatim>\<open>following.push(id)\<close> cast it
  to an identifier (\<open>castObjectId\<close>, defined on what \<open>isValidObjectId\<close> accepts). The
  self-follow guard \<^verbatim>\<open>id === req.user.id.toString()\<close>, \<^verbatim>\<open>following.includes(id)\<close> and
  the filter \<^verbatim>\<open>userId.toString() !== id\<close> compare the string as it was sent with the
  rendering of an identifier.

  Reading the identifier of an absent \<^verbatim>\<open>req.user\<close>, or reading \<^verbatim>\<open>following\<close> of an
  acting user that is not in the store, throws inside the handler's \<^verbatim>\<open>try\<close> and ends
  in the 500 response.
\<close>

definition toggleFollow ::
  "(string \<Rightarrow> bool) \<Rightarrow> (string \<Rightarrow> oid) \<Rightarrow> string \<Rightarrow> oid option \<Rightarrow> db \<Rightarrow> response \<times> db" where
  "toggleFollow isValidObjectId castObjectId targetId reqUser d =
     (if targetId = [] \<or> \<not> isValidObjectId targetId then ((400, Message ''Invalid user ID''), d)
      else case reqUser of
        None \<Rightarrow> ((500, Message ''Server error''), d)
      | Some uid \<Rightarrow>
        (case findUserById (castObjectId targetId) d of
           None \<Rightarrow> ((404, Message ''User not found''), d)
         | Some userToFollow \<Rightarrow>
           if targetId = uid then ((400, Message ''You cannot follow yourself''), d)
           else
             (case findUserById uid d of
                None \<Rightarrow> ((500, Message ''Server error''), d)
              | Some currentUser \<Rightarrow>
                let isFollowing = (targetId \<in> set (following currentUser));
                    currentUser' =
                      (if isFollowing
                       then currentUser\<lparr>following :=
                              filter (\<lambda>userId. userId \<noteq> targetId) (following currentUser)\<rparr>
                       else currentUser\<lparr>following :=
                              following currentUser @ [castObjectId targetId]\<rparr>);
                    userToFollow' =
                      (if isFollowing
                       then userToFollow\<lparr>followers :=
                              filter (\<lambda>userId. userId \<noteq> uid) (followers userToFollow)\<rparr>
                       else userToFollow\<lparr>followers := followers userToFollow @ [uid]\<rparr>)
                in ((200, FollowJson
                       (if isFollowing then ''Unfollowed successfully''
                        else ''Followed successfully'')
                       (\<not> isFollowing) (length (followers userToFollow'))),
                    saveFollowers userToFollow' (saveFollowing currentUser' d)))))"

section \<open>Authentication\<close>

text \<open>
  Modelled from the spec: the User model (models/User.js is not among the sources).
  Registration stores a hash of the password, never the plaintext; the profile fields
  are optional and a new user follows nobody and has no follower. \<open>hash\<close> is the
  hashing capability.
\<close>

definition newUser :: "(string \<Rightarrow> string) \<Rightarrow> oid \<Rightarrow> string \<Rightarrow> string \<Rightarrow> string \<Rightarrow> user" where
  "newUser hash newId uname mail pw =
     \<lparr>user_id = newId, username = uname, email = mail, password = hash pw,
      bio = [], avatar = [], followers = [], following = []\<rparr>"

text \<open>
  \<^verbatim>\<open>POST /api/auth/register\<close>. \<open>isEmail\<close> is the validator's test of a well-formed
  email address, \<open>generateToken\<close> signs the token for a user identifier; the three fields
  are those of the request body.
\<close>

definition registerErrors ::
  "(string \<Rightarrow> bool) \<Rightarrow> string option \<Rightarrow> string option \<Rightarrow> string option \<Rightarrow> string list" where
  "registerErrors isEmail rusername remail rpassword =
     check (isLength 3 rusername) ''Username must be at least 3 characters''
     @ check (isEmail (toString remail)) ''Please enter a valid email''
     @ check (isLength 6 rpassword) ''Password must be at least 6 characters''"

definition register ::
  "(string \<Rightarrow> bool) \<Rightarrow> (string \<Rightarrow> string) \<Rightarrow> (oid \<Rightarrow> string) \<Rightarrow> oid
     \<Rightarrow> string option \<Rightarrow> string option \<Rightarrow> string option \<Rightarrow> db \<Rightarrow> response \<times> db" where
  "register isEmail hash generateToken newId rusername remail rpassword d =
     (let errors = registerErrors isEmail rusername remail rpassword
      in if errors \<noteq> [] then ((400, Errors errors), d)
         else case find (\<lambda>u. email u = toString remail \<or> username u = toString rusername)
                     (users d) of
           Some existingUser \<Rightarrow> ((400, Message ''User already exists''), d)
         | None \<Rightarrow>
           let u = newUser hash newId (toString rusername) (toString remail)
                     (toString rpassword)
           in ((201, AuthJson (generateToken (user_id u)) (user_id u) (username u)
                       (email u) (bio u) (avatar u)),
               d\<lparr>users := users d @ [u]\<rparr>))"

text \<open>
  \<^verbatim>\<open>POST /api/auth/login\<close>. \<open>comparePassword\<close> is the user document's method that
  verifies a password against the stored hash. The handler writes nothing, so it
  returns the response only.
\<close>

definition login ::
  "(string \<Rightarrow> bool) \<Rightarrow> (user \<Rightarrow> string \<Rightarrow> bool) \<Rightarrow> (oid \<Rightarrow> string)
     \<Rightarrow> string option \<Rightarrow> string option \<Rightarrow> db \<Rightarrow> response" where
  "login isEmail comparePassword generateToken remail rpassword d =
     (let errors = check (isEmail (toString remail)) ''Please enter a valid email''
                   @ check (exists_field rpassword) ''Password is required''
      in if errors \<noteq> [] then (400, Errors errors)
         else case find (\<lambda>u. email u = toString remail) (users d) of
           None \<Rightarrow> (400, Message ''Invalid credentials'')
         | Some u \<Rightarrow>
           if \<not> comparePassword u (toString rpassword)
           then (400, Message ''Invalid credentials'')
           else (200, AuthJson (generateToken (user_id u)) (user_id u) (username u)
                        (email u) (bio u) (avatar u)))"

section \<open>Notes\<close>

text \<open>
  The validators of the Note schema, which \<^verbatim>\<open>note.save()\<close> runs: title and content are
  required, at most 200 and 5000 characters, and a tag has at most 50. A save that
  fails them throws, and the handler answers 500.
\<close>

definition validNote :: "noteDoc \<Rightarrow> bool" where
  "validNote n =
     (title n \<noteq> [] \<and> length (title n) \<le> 200
      \<and> note_content n \<noteq> [] \<and> length (note_content n) \<le> 5000
      \<and> list_all (\<lambda>t. length t \<le> 50) (tags n))"

text \<open>
  \<^verbatim>\<open>PUT /api/notes/:id\<close>. \<open>rtags\<close> and \<open>rpinned\<close> are \<^verbatim>\<open>req.body.tags\<close> and
  \<^verbatim>\<open>req.body.isPinned\<close>, \<open>None\<close> when the request leaves them out. The route does not
  check the identifier of the path, so \<^verbatim>\<open>findById\<close> throws on one that is not
  well-formed (\<open>isValidObjectId\<close>), as does reading the identifier of an absent
  \<^verbatim>\<open>req.user\<close>.
\<close>

definition updateNote ::
  "(oid \<Rightarrow> bool) \<Rightarrow> oid \<Rightarrow> string option \<Rightarrow> string option \<Rightarrow> string list option
     \<Rightarrow> bool option \<Rightarrow> oid option \<Rightarrow> db \<Rightarrow> response \<times> db" where
  "updateNote isValidObjectId nid rtitle rcontent rtags rpinned reqUser d =
     (let errors = check (notEmpty rtitle) ''Title is required''
                   @ check (notEmpty rcontent) ''Content is required''
      in if errors \<noteq> [] then ((400, Errors errors), d)
         else if \<not> isValidObjectId nid then ((500, Message ''Server error''), d)
         else case findNoteById nid d of
           None \<Rightarrow> ((404, Message ''Note not found''), d)
         | Some n \<Rightarrow>
           (case reqUser of
              None \<Rightarrow> ((500, Message ''Server error''), d)
            | Some uid \<Rightarrow>
              if note_user n \<noteq> uid then ((403, Message ''Not authorized''), d)
              else
                let n' = n\<lparr>title := toString rtitle,
                           note_content := toString rcontent,
                           tags := (case rtags of None \<Rightarrow> [] | Some ts \<Rightarrow> ts),
                           isPinned := (case rpinned of None \<Rightarrow> isPinned n | Some b \<Rightarrow> b)\<rparr>
                in if validNote n' then ((200, NoteJson n'), saveNote n' d)
                   else ((500, Message ''Server error''), d)))"

section \<open>The connectivity predicate of the specification\<close>

text \<open>
  The specification's \<^verbatim>\<open>isConnected(userIdA, userIdB)\<close>, in its own words: true iff A
  follows B, or B follows A, or A == B. That A follows B is read off A's document, as
  the follow route does (\<^verbatim>\<open>currentUser.following.includes(id)\<close>).
\<close>

definition follows :: "db \<Rightarrow> oid \<Rightarrow> oid \<Rightarrow> bool" where
  "follows d a b = (case findUserById a d of None \<Rightarrow> False | Some u \<Rightarrow> b \<in> set (following u))"

definition spec_isConnected :: "db \<Rightarrow> oid \<Rightarrow> oid \<Rightarrow> bool" where
  "spec_isConnected d a b = (follows d a b \<or> follows d b a \<or> a = b)"

text \<open>
  The follow edge is recorded on both sides: for users \<open>a\<close> and \<open>b\<close> of the store,
  \<open>b\<close> is in \<open>a\<close>'s \<^verbatim>\<open>following\<close> iff \<open>a\<close> is in \<open>b\<close>'s \<^verbatim>\<open>followers\<close>.
\<close>

definition edgesSymmetric :: "db \<Rightarrow> bool" where
  "edgesSymmetric d =
     (\<forall>a \<in> set (users d). \<forall>b \<in> set (users d).
        (user_id b \<in> set (following a)) = (user_id a \<in> set (followers b)))"

section \<open>Example data\<close>

text \<open>
  A string of 24 hexadecimal digits, of either case, which
  \<^verbatim>\<open>mongoose.Types.ObjectId.isValid\<close> accepts; and the cast of such a string to an
  identifier, whose rendering has the digits in lower case.
\<close>

definition hex24 :: "string \<Rightarrow> bool" where
  "hex24 s = (length s = 24 \<and> list_all (\<lambda>c. c \<in> set ''0123456789abcdefABCDEF'') s)"

definition lowerHexDigit :: "char \<Rightarrow> char" where
  "lowerHexDigit c =
     (if c = CHR ''A'' then CHR ''a'' else if c = CHR ''B'' then CHR ''b''
      else if c = CHR ''C'' then CHR ''c'' else if c = CHR ''D'' then CHR ''d''
      else if c = CHR ''E'' then CHR ''e'' else if c = CHR ''F'' then CHR ''f'' else c)"

definition exampleCast :: "string \<Rightarrow> oid" where
  "exampleCast s = map lowerHexDigit s"

text \<open>
  Four users: bob follows alice, alice follows carol, dave has no edge. Alice's post is
  liked by bob and carries a comment of bob and one of alice; alice owns a pinned note.
\<close>

definition alice :: user where
  "alice = \<lparr>user_id = ''64b000000000000000000001'', username = ''alice'',
            email = ''alice@example.com'', password = ''h:wonderland'', bio = [], avatar = [],
            followers = [''64b000000000000000000002''],
            following = [''64b000000000000000000003'']\<rparr>"

definition bob :: user where
  "bob = \<lparr>user_id = ''64b000000000000000000002'', username = ''bob'',
          email = ''bob@example.com'', password = ''h:builder'', bio = [], avatar = [],
          followers = [], following = [''64b000000000000000000001'']\<rparr>"

definition carol :: user where
  "carol = \<lparr>user_id = ''64b000000000000000000003'', username = ''carol'',
            email = ''carol@example.com'', password = ''h:singing'', bio = [], avatar = [],
            followers = [''64b000000000000000000001''], following = []\<rparr>"

definition dave :: user where
  "dave = \<lparr>user_id = ''64b000000000000000000004'', username = ''dave'',
           email = ''dave@example.com'', password = ''h:davedave'', bio = [], avatar = [],
           followers = [], following = []\<rparr>"

definition post1 :: post where
  "post1 = \<lparr>post_id = ''64b0000000000000000000a1'', author = ''64b000000000000000000001'',
            post_content = ''hello'',
            likes = [\<lparr>like_user = ''64b000000000000000000002''\<rparr>],
            comments =
              [\<lparr>comment_id = ''64b0000000000000000000c1'',
                comment_user = ''64b000000000000000000002'', comment_content = ''nice''\<rparr>,
               \<lparr>comment_id = ''64b0000000000000000000c2'',
                comment_user = ''64b000000000000000000001'', comment_content = ''thanks''\<rparr>]\<rparr>"

definition note1 :: noteDoc where
  "note1 = \<lparr>note_id = ''64b0000000000000000000f1'', note_user = ''64b000000000000000000001'',
            title = ''todo'', note_content = ''milk'', tags = [''home''], isPinned = True\<rparr>"

definition exampleDb :: db where
  "exampleDb = \<lparr>users = [alice, bob, carol, dave], posts = [post1], noteDocs = [note1]\<rparr>"

text \<open>
  Stand-ins for the capabilities the handlers take as arguments, for the examples: an
  email test that asks for one \<open>@\<close> with text on both sides, a hash that tags the
  password, the verification that goes with it, and a token that tags the identifier.
\<close>

definition exampleIsEmail :: "string \<Rightarrow> bool" where
  "exampleIsEmail s =
     (count_list s CHR ''@'' = 1 \<and> takeWhile (\<lambda>c. c \<noteq> CHR ''@'') s \<noteq> []
      \<and> tl (dropWhile (\<lambda>c. c \<noteq> CHR ''@'') s) \<noteq> [])"

definition exampleHash :: "string \<Rightarrow> string" where
  "exampleHash pw = ''h:'' @ pw"

definition exampleComparePassword :: "user \<Rightarrow> string \<Rightarrow> bool" where
  "exampleComparePassword u pw = (password u = exampleHash pw)"

definition exampleToken :: "oid \<Rightarrow> string" where
  "exampleToken i = ''t:'' @ i"

section \<open>Blank content, in the specification's sense\<close>

text \<open>
  The specification's test for post content: content is refused when it is empty or
  whitespace after trimming. Trimming removes the white space at both ends.
\<close>

definition isSpace :: "char \<Rightarrow> bool" where
  "isSpace c = (c \<in> set [CHR '' '', CHR 0x09, CHR 0x0A, CHR 0x0B, CHR 0x0C, CHR 0x0D])"

definition trim :: "string \<Rightarrow> string" where
  "trim s = rev (dropWhile isSpace (rev (dropWhile isSpace s)))"

definition spec_emptyContent :: "string option \<Rightarrow> bool" where
  "spec_emptyContent content = (trim (toString content) = [])"

text \<open>
  Two Post schemas for the examples: one with no setter and no validator, which stores
  every document as it is built, and one that trims the content and requires it, which
  is the Post model as the specification describes it (content non-empty, blank content
  refused after trimming).
\<close>

definition acceptingSchema :: "post \<Rightarrow> post option" where
  "acceptingSchema p = Some p"

definition trimmingSchema :: "post \<Rightarrow> post option" where
  "trimmingSchema p =
     (if trim (post_content p) = [] then None
      else Some (p\<lparr>post_content := trim (post_content p)\<rparr>))"

section \<open>Facts about the primitives\<close>

lemma findIndex_ge: "- 1 \<le> findIndex P xs"
  by (induction xs) (auto simp: Let_def)

lemma findIndex_none: "(findIndex P xs = - 1) = (\<forall>x\<in>set xs. \<not> P x)"
proof (induction xs)
  case Nil
  show ?case by simp
next
  case (Cons x xs)
  have "- 1 \<le> findIndex P xs" by (rule findIndex_ge)
  with Cons show ?case by (auto simp: Let_def)
qed

lemma findIndex_found:
  "findIndex P xs \<noteq> - 1 \<Longrightarrow>
     0 \<le> findIndex P xs \<and> nat (findIndex P xs) < length xs
     \<and> find P xs = Some (xs ! nat (findIndex P xs))"
proof (induction xs)
  case Nil
  then show ?case by simp
next
  case (Cons x xs)
  show ?case
  proof (cases "P x")
    case True
    then show ?thesis by simp
  next
    case False
    with Cons.prems have ne: "findIndex P xs \<noteq> - 1" by (auto simp: Let_def split: if_splits)
    from Cons.IH [OF ne] False ne show ?thesis
      by (auto simp: Let_def nat_add_distrib)
  qed
qed

lemma findIndex_find_None: "(find P xs = None) = (findIndex P xs = - 1)"
  by (auto simp: findIndex_none find_None_iff)

lemma splice1_findIndex:
  "findIndex (\<lambda>l. f l = u) xs \<noteq> - 1 \<Longrightarrow>
     map f (splice1 (findIndex (\<lambda>l. f l = u) xs) xs) = remove1 u (map f xs)"
proof (induction xs)
  case Nil
  then show ?case by simp
next
  case (Cons x xs)
  show ?case
  proof (cases "f x = u")
    case True
    then show ?thesis by (simp add: splice1_def)
  next
    case False
    with Cons.prems have ne: "findIndex (\<lambda>l. f l = u) xs \<noteq> - 1"
      by (auto simp: Let_def split: if_splits)
    have ge: "0 \<le> findIndex (\<lambda>l. f l = u) xs" using findIndex_found [OF ne] by simp
    from Cons.IH [OF ne] False ne ge show ?thesis
      by (auto simp: Let_def splice1_def nat_add_distrib)
  qed
qed

lemma find_replace_same:
  "find (\<lambda>x. k x = i) xs = Some y \<Longrightarrow> k y' = i \<Longrightarrow>
     find (\<lambda>x. k x = i) (map (\<lambda>x. if k x = k y' then y' else x) xs) = Some y'"
  by (induction xs) (auto split: if_splits)

lemma find_key: "find (\<lambda>x. k x = i) xs = Some y \<Longrightarrow> k y = i"
  by (induction xs) (auto split: if_splits)

lemma findPostById_id: "findPostById pid d = Some p \<Longrightarrow> post_id p = pid"
  unfolding findPostById_def by (rule find_key)

lemma findUserById_id: "findUserById uid d = Some u \<Longrightarrow> user_id u = uid"
  unfolding findUserById_def by (rule find_key)

lemma findPostById_savePost:
  "findPostById pid d = Some p \<Longrightarrow> post_id p' = pid \<Longrightarrow>
     findPostById pid (savePost p' d) = Some p'"
  using find_replace_same [of post_id pid "posts d" p p']
  by (simp add: findPostById_def savePost_def)

lemma findUserById_savePost [simp]: "findUserById uid (savePost p d) = findUserById uid d"
  by (simp add: findUserById_def savePost_def)

lemma likes_after_toggle:
  "map like_user (if findIndex (\<lambda>l. like_user l = uid) ls > - 1
                  then splice1 (findIndex (\<lambda>l. like_user l = uid) ls) ls
                  else ls @ [\<lparr>like_user = uid\<rparr>])
     = (if uid \<in> set (map like_user ls) then remove1 uid (map like_user ls)
        else map like_user ls @ [uid])"
proof (cases "findIndex (\<lambda>l. like_user l = uid) ls = - 1")
  case True
  then have "uid \<notin> set (map like_user ls)" by (auto simp: findIndex_none)
  with True show ?thesis by simp
next
  case False
  then have "uid \<in> set (map like_user ls)" by (auto simp: findIndex_none)
  moreover have "findIndex (\<lambda>l. like_user l = uid) ls > - 1"
    using False findIndex_ge [of "\<lambda>l. like_user l = uid" ls] by linarith
  ultimately show ?thesis using splice1_findIndex [OF False] by simp
qed

lemmas example_defs = exampleDb_def alice_def bob_def carol_def dave_def post1_def note1_def
  hex24_def findUserById_def findPostById_def findNoteById_def

section \<open>Likes\<close>

text \<open>
  What the like route does once its checks have passed: it answers 200 with the post it
  has saved, which is the post it loaded with the acting user's first entry removed from
  \<^verbatim>\<open>likes\<close> when there is one, and with an entry for the acting user appended otherwise.
\<close>

lemma toggleLike_run:
  assumes "isValidObjectId pid"
    and "findPostById pid d = Some p"
    and "findUserById uid d = Some currentUser"
    and "findUserById (author p) d = Some postAuthor"
    and "isFollowingOrFollower currentUser postAuthor p uid"
  shows "\<exists>p'. toggleLike isValidObjectId pid (Some uid) d = ((200, PostJson p'), savePost p' d)
           \<and> findPostById pid (savePost p' d) = Some p'
           \<and> p' = p\<lparr>likes := likes p'\<rparr>
           \<and> map like_user (likes p') =
               (if uid \<in> set (map like_user (likes p))
                then remove1 uid (map like_user (likes p))
                else map like_user (likes p) @ [uid])
           \<and> (distinct (map like_user (likes p)) \<longrightarrow> distinct (map like_user (likes p')))"
proof -
  define ls' where "ls' = (if findIndex (\<lambda>l. like_user l = uid) (likes p) > - 1
                  then splice1 (findIndex (\<lambda>l. like_user l = uid) (likes p)) (likes p)
                  else likes p @ [\<lparr>like_user = uid\<rparr>])"
  define p' where "p' = p\<lparr>likes := ls'\<rparr>"
  have run: "toggleLike isValidObjectId pid (Some uid) d = ((200, PostJson p'), savePost p' d)"
    using assms by (simp add: toggleLike_def p'_def ls'_def Let_def)
  have pid: "post_id p' = pid" using findPostById_id [OF assms(2)] by (simp add: p'_def)
  have stored: "findPostById pid (savePost p' d) = Some p'"
    by (rule findPostById_savePost [OF assms(2) pid])
  have eq: "map like_user (likes p') =
               (if uid \<in> set (map like_user (likes p))
                then remove1 uid (map like_user (likes p))
                else map like_user (likes p) @ [uid])"
    using likes_after_toggle [of uid "likes p"] by (simp add: p'_def ls'_def)
  have dist: "distinct (map like_user (likes p)) \<longrightarrow> distinct (map like_user (likes p'))"
    unfolding eq by auto
  have rest: "p' = p\<lparr>likes := likes p'\<rparr>" by (simp add: p'_def)
  from run stored rest eq dist show ?thesis by blast
qed

lemma toggle_twice_list:
  assumes "distinct L"
    and "L1 = (if u \<in> set L then remove1 u L else L @ [u])"
    and "L2 = (if u \<in> set L1 then remove1 u L1 else L1 @ [u])"
  shows "length L2 = length L \<and> set L2 = set L \<and> (u \<in> set L1) = (u \<notin> set L)"
proof (cases "u \<in> set L")
  case True
  with assms have L1: "L1 = remove1 u L" and notin: "u \<notin> set L1" by auto
  with assms have L2: "L2 = remove1 u L @ [u]" by simp
  have "length L2 = length L" using True by (simp add: L2 length_remove1) (cases L; auto)
  moreover have "set L2 = set L" using True assms(1) by (auto simp: L2)
  ultimately show ?thesis using True notin by simp
next
  case False
  with assms have L1: "L1 = L @ [u]" by simp
  with assms False have "L2 = L" by (simp add: remove1_append)
  with False L1 show ?thesis by simp
qed

text \<open>
  Claim C2, as amended. For every post and every actor whom the route's gate admits (the
  actor follows the post's author, by the actor's \<^verbatim>\<open>following\<close> or the author's
  \<^verbatim>\<open>followers\<close>, or is the author), the like toggle removes the actor's entry from the
  post's likes when one is present and appends one when none is; so when the likes held
  each user identifier at most once before the call, they hold each at most once after
  it.
\<close>

theorem toggleLike_toggles:
  assumes "isValidObjectId pid"
    and "findPostById pid d = Some p"
    and "findUserById uid d = Some currentUser"
    and "findUserById (author p) d = Some postAuthor"
    and "isFollowingOrFollower currentUser postAuthor p uid"
  shows "\<exists>p'. toggleLike isValidObjectId pid (Some uid) d = ((200, PostJson p'), savePost p' d)
           \<and> findPostById pid (savePost p' d) = Some p'
           \<and> p' = p\<lparr>likes := likes p'\<rparr>
           \<and> map like_user (likes p') =
               (if uid \<in> set (map like_user (likes p))
                then remove1 uid (map like_user (likes p))
                else map like_user (likes p) @ [uid])
           \<and> (distinct (map like_user (likes p)) \<longrightarrow> distinct (map like_user (likes p')))"
  using toggleLike_run [where isValidObjectId = isValidObjectId and pid = pid, OF assms] .

theorem toggleLike_toggles_witness:
  "isFollowingOrFollower bob alice post1 ''64b000000000000000000002''
   \<and> isFollowingOrFollower alice alice post1 ''64b000000000000000000001''
   \<and> distinct (map like_user (likes post1))
   \<and> toggleLike hex24 ''64b0000000000000000000a1'' (Some ''64b000000000000000000002'') exampleDb
       = ((200, PostJson (post1\<lparr>likes := []\<rparr>)), savePost (post1\<lparr>likes := []\<rparr>) exampleDb)
   \<and> distinct (map like_user (likes (post1\<lparr>likes := []\<rparr>)))
   \<and> toggleLike hex24 ''64b0000000000000000000a1'' (Some ''64b000000000000000000001'') exampleDb
       = ((200, PostJson (post1\<lparr>likes := [\<lparr>like_user = ''64b000000000000000000002''\<rparr>,
                                             \<lparr>like_user = ''64b000000000000000000001''\<rparr>]\<rparr>)),
          savePost (post1\<lparr>likes := [\<lparr>like_user = ''64b000000000000000000002''\<rparr>,
                                     \<lparr>like_user = ''64b000000000000000000001''\<rparr>]\<rparr>) exampleDb)"
proof -
  have h1: "hex24 ''64b0000000000000000000a1''" by (simp add: hex24_def)
  have h2: "findPostById ''64b0000000000000000000a1'' exampleDb = Some post1"
    by (simp add: example_defs)
  have h3: "findUserById ''64b000000000000000000002'' exampleDb = Some bob"
    and h3': "findUserById ''64b000000000000000000001'' exampleDb = Some alice"
    by (simp_all add: example_defs)
  have h4: "findUserById (author post1) exampleDb = Some alice"
    by (simp add: example_defs)
  have h5: "isFollowingOrFollower bob alice post1 ''64b000000000000000000002''"
    and h5': "isFollowingOrFollower alice alice post1 ''64b000000000000000000001''"
    by (simp_all add: example_defs isFollowingOrFollower_def)
  have h6: "distinct (map like_user (likes post1))" by (simp add: post1_def)
  from toggleLike_toggles [where isValidObjectId = hex24, OF h1 h2 h3 h4 h5] obtain p' where
    run: "toggleLike hex24 ''64b0000000000000000000a1'' (Some ''64b000000000000000000002'')
            exampleDb = ((200, PostJson p'), savePost p' exampleDb)"
    and rest: "p' = post1\<lparr>likes := likes p'\<rparr>"
    and l: "map like_user (likes p') =
              (if ''64b000000000000000000002'' \<in> set (map like_user (likes post1))
               then remove1 ''64b000000000000000000002'' (map like_user (likes post1))
               else map like_user (likes post1) @ [''64b000000000000000000002''])"
    by blast
  from l have "likes p' = []" by (simp add: post1_def)
  with rest have removed: "p' = post1\<lparr>likes := []\<rparr>" by simp
  from toggleLike_toggles [where isValidObjectId = hex24, OF h1 h2 h3' h4 h5'] obtain q where
    run': "toggleLike hex24 ''64b0000000000000000000a1'' (Some ''64b000000000000000000001'')
            exampleDb = ((200, PostJson q), savePost q exampleDb)"
    and rest': "q = post1\<lparr>likes := likes q\<rparr>"
    and l': "map like_user (likes q) =
              (if ''64b000000000000000000001'' \<in> set (map like_user (likes post1))
               then remove1 ''64b000000000000000000001'' (map like_user (likes post1))
               else map like_user (likes post1) @ [''64b000000000000000000001''])"
    by blast
  from l' have "map like_user (likes q)
                  = [''64b000000000000000000002'', ''64b000000000000000000001'']"
    by (simp add: post1_def)
  then have "likes q = [\<lparr>like_user = ''64b000000000000000000002''\<rparr>,
                        \<lparr>like_user = ''64b000000000000000000001''\<rparr>]"
    by (auto simp: map_eq_Cons_conv)
  with rest' have appended: "q = post1\<lparr>likes := [\<lparr>like_user = ''64b000000000000000000002''\<rparr>,
                                                 \<lparr>like_user = ''64b000000000000000000001''\<rparr>]\<rparr>"
    by simp
  from run run' h5 h5' h6 show ?thesis unfolding removed appended by simp
qed

text \<open>
  Claim C2 as stated fails for an actor who is connected to the post's author only
  because the author follows them. Carol is followed by alice and has no entry in the
  likes of alice's post; her toggle is refused with 403 and appends nothing.
\<close>

theorem toggleLike_toggles_counterexample:
  "spec_isConnected exampleDb ''64b000000000000000000003'' ''64b000000000000000000001''
   \<and> findUserById ''64b000000000000000000003'' exampleDb = Some carol
   \<and> findPostById ''64b0000000000000000000a1'' exampleDb = Some post1
   \<and> author post1 = ''64b000000000000000000001''
   \<and> ''64b000000000000000000003'' \<notin> set (map like_user (likes post1))
   \<and> toggleLike hex24 ''64b0000000000000000000a1'' (Some ''64b000000000000000000003'') exampleDb
       = ((403, Message
             ''You must follow this user or be their follower to like their posts''), exampleDb)"
  by (simp add: example_defs follows_def spec_isConnected_def toggleLike_def
      isFollowingOrFollower_def)

text \<open>
  A like toggle that does not succeed leaves the store as it was.
\<close>

lemma toggleLike_refused_or_run:
  "(snd (toggleLike isValidObjectId pid reqUser d) = d
      \<and> fst (fst (toggleLike isValidObjectId pid reqUser d)) \<noteq> 200)
   \<or> (\<exists>uid p currentUser postAuthor.
         isValidObjectId pid \<and> reqUser = Some uid \<and> findPostById pid d = Some p
       \<and> findUserById uid d = Some currentUser
       \<and> findUserById (author p) d = Some postAuthor
       \<and> isFollowingOrFollower currentUser postAuthor p uid)"
  by (auto simp: toggleLike_def split: option.splits)

text \<open>
  Claim C3. For every post whose likes hold each user identifier at most once (the
  invariant of the data model, which the toggle keeps) and every actor, connected to the
  post's author or not: after two like toggles in succession by that actor on that post,
  the post's likes have their original count and their original members. When the
  route's gate admits the actor, both toggles succeed and the first one flips the
  actor's membership; when it refuses the actor, both are refused with 403 and the
  store is as it was.
\<close>

theorem toggleLike_twice_restores:
  assumes p: "findPostById pid d = Some p"
    and dist: "distinct (map like_user (likes p))"
  shows "let d1 = snd (toggleLike isValidObjectId pid reqUser d);
             d2 = snd (toggleLike isValidObjectId pid reqUser d1)
         in (\<exists>p2. findPostById pid d2 = Some p2
                \<and> length (likes p2) = length (likes p)
                \<and> set (map like_user (likes p2)) = set (map like_user (likes p)))
            \<and> (isValidObjectId pid \<and> reqUser = Some uid
                 \<and> findUserById uid d = Some currentUser
                 \<and> findUserById (author p) d = Some postAuthor \<longrightarrow>
                (if isFollowingOrFollower currentUser postAuthor p uid
                 then fst (fst (toggleLike isValidObjectId pid reqUser d)) = 200
                    \<and> fst (fst (toggleLike isValidObjectId pid reqUser d1)) = 200
                    \<and> (\<exists>p1. findPostById pid d1 = Some p1
                          \<and> (uid \<in> set (map like_user (likes p1)))
                              = (uid \<notin> set (map like_user (likes p))))
                 else fst (fst (toggleLike isValidObjectId pid reqUser d)) = 403
                    \<and> fst (fst (toggleLike isValidObjectId pid reqUser d1)) = 403
                    \<and> d2 = d))"
proof -
  define d1 where "d1 = snd (toggleLike isValidObjectId pid reqUser d)"
  define d2 where "d2 = snd (toggleLike isValidObjectId pid reqUser d1)"
  have passes: "fst (fst (toggleLike isValidObjectId pid reqUser d)) = 200
        \<and> fst (fst (toggleLike isValidObjectId pid reqUser d1)) = 200
        \<and> (\<exists>p1. findPostById pid d1 = Some p1
              \<and> (u \<in> set (map like_user (likes p1))) = (u \<notin> set (map like_user (likes p))))
        \<and> (\<exists>p2. findPostById pid d2 = Some p2
              \<and> length (likes p2) = length (likes p)
              \<and> set (map like_user (likes p2)) = set (map like_user (likes p)))"
    if v: "isValidObjectId pid" and r: "reqUser = Some u"
      and cu: "findUserById u d = Some c" and pa: "findUserById (author p) d = Some a"
      and g: "isFollowingOrFollower c a p u" for u c a
  proof -
    from toggleLike_run [where isValidObjectId = isValidObjectId and pid = pid, OF v p cu pa g]
    obtain p1 where
      run1: "toggleLike isValidObjectId pid (Some u) d = ((200, PostJson p1), savePost p1 d)"
      and st1: "findPostById pid (savePost p1 d) = Some p1"
      and rest1: "p1 = p\<lparr>likes := likes p1\<rparr>"
      and l1: "map like_user (likes p1) =
               (if u \<in> set (map like_user (likes p))
                then remove1 u (map like_user (likes p))
                else map like_user (likes p) @ [u])"
      by blast
    have e1: "d1 = savePost p1 d" using run1 r by (simp add: d1_def)
    have a1: "author p1 = author p" by (subst rest1) simp
    have u1: "findUserById u (savePost p1 d) = Some c" using cu by simp
    have au1: "findUserById (author p1) (savePost p1 d) = Some a" using pa a1 by simp
    have g1: "isFollowingOrFollower c a p1 u"
      using g a1 by (simp add: isFollowingOrFollower_def)
    from toggleLike_run [where isValidObjectId = isValidObjectId and pid = pid,
        OF v st1 u1 au1 g1]
    obtain p2 where
      run2: "toggleLike isValidObjectId pid (Some u) (savePost p1 d)
             = ((200, PostJson p2), savePost p2 (savePost p1 d))"
      and st2: "findPostById pid (savePost p2 (savePost p1 d)) = Some p2"
      and l2: "map like_user (likes p2) =
               (if u \<in> set (map like_user (likes p1))
                then remove1 u (map like_user (likes p1))
                else map like_user (likes p1) @ [u])"
      by blast
    have e2: "d2 = savePost p2 (savePost p1 d)" using run2 r e1 by (simp add: d2_def)
    from toggle_twice_list [OF dist l1 l2]
    have "length (map like_user (likes p2)) = length (map like_user (likes p))"
      and s: "set (map like_user (likes p2)) = set (map like_user (likes p))"
      and f: "(u \<in> set (map like_user (likes p1))) = (u \<notin> set (map like_user (likes p)))"
      by blast+
    then have n: "length (likes p2) = length (likes p)" by simp
    from run1 run2 r e1 e2 st1 st2 n s f show ?thesis by auto
  qed
  have restored: "\<exists>p2. findPostById pid d2 = Some p2
                \<and> length (likes p2) = length (likes p)
                \<and> set (map like_user (likes p2)) = set (map like_user (likes p))"
  proof -
    from toggleLike_refused_or_run [of isValidObjectId pid reqUser d]
    consider (refused) "d1 = d"
      | (run) u q c a where "isValidObjectId pid" "reqUser = Some u"
          "findPostById pid d = Some q" "findUserById u d = Some c"
          "findUserById (author q) d = Some a" "isFollowingOrFollower c a q u"
      unfolding d1_def by blast
    then show ?thesis
    proof cases
      case refused
      then have "d2 = d" by (simp add: d2_def d1_def)
      with p show ?thesis by simp
    next
      case run
      with p have "q = p" by simp
      with run passes show ?thesis by blast
    qed
  qed
  have split: "isValidObjectId pid \<and> reqUser = Some uid
                 \<and> findUserById uid d = Some currentUser
                 \<and> findUserById (author p) d = Some postAuthor \<longrightarrow>
                (if isFollowingOrFollower currentUser postAuthor p uid
                 then fst (fst (toggleLike isValidObjectId pid reqUser d)) = 200
                    \<and> fst (fst (toggleLike isValidObjectId pid reqUser d1)) = 200
                    \<and> (\<exists>p1. findPostById pid d1 = Some p1
                          \<and> (uid \<in> set (map like_user (likes p1)))
                              = (uid \<notin> set (map like_user (likes p))))
                 else fst (fst (toggleLike isValidObjectId pid reqUser d)) = 403
                    \<and> fst (fst (toggleLike isValidObjectId pid reqUser d1)) = 403
                    \<and> d2 = d)"
  proof (intro impI, elim conjE)
    assume v: "isValidObjectId pid" and r: "reqUser = Some uid"
      and cu: "findUserById uid d = Some currentUser"
      and pa: "findUserById (author p) d = Some postAuthor"
    show "if isFollowingOrFollower currentUser postAuthor p uid
          then fst (fst (toggleLike isValidObjectId pid reqUser d)) = 200
             \<and> fst (fst (toggleLike isValidObjectId pid reqUser d1)) = 200
             \<and> (\<exists>p1. findPostById pid d1 = Some p1
                   \<and> (uid \<in> set (map like_user (likes p1)))
                       = (uid \<notin> set (map like_user (likes p))))
          else fst (fst (toggleLike isValidObjectId pid reqUser d)) = 403
             \<and> fst (fst (toggleLike isValidObjectId pid reqUser d1)) = 403
             \<and> d2 = d"
    proof (cases "isFollowingOrFollower currentUser postAuthor p uid")
      case True
      with passes [OF v r cu pa] show ?thesis by simp
    next
      case False
      have r1: "toggleLike isValidObjectId pid reqUser d = ((403, Message
          ''You must follow this user or be their follower to like their posts''), d)"
        using v r p cu pa False by (simp add: toggleLike_def)
      then have "d1 = d" by (simp add: d1_def)
      with r1 False show ?thesis by (simp add: d2_def)
    qed
  qed
  from restored split show ?thesis
    unfolding Let_def d1_def [symmetric] d2_def [symmetric] by blast
qed

theorem toggleLike_twice_restores_witness:
  "distinct (map like_user (likes post1))
   \<and> spec_isConnected exampleDb ''64b000000000000000000003'' ''64b000000000000000000001''
   \<and> snd (toggleLike hex24 ''64b0000000000000000000a1'' (Some ''64b000000000000000000003'')
          (snd (toggleLike hex24 ''64b0000000000000000000a1''
                  (Some ''64b000000000000000000003'') exampleDb))) = exampleDb
   \<and> fst (fst (toggleLike hex24 ''64b0000000000000000000a1''
                 (Some ''64b000000000000000000002'') exampleDb)) = 200
   \<and> (\<exists>p1. findPostById ''64b0000000000000000000a1''
               (snd (toggleLike hex24 ''64b0000000000000000000a1''
                       (Some ''64b000000000000000000002'') exampleDb)) = Some p1
          \<and> ''64b000000000000000000002'' \<notin> set (map like_user (likes p1)))
   \<and> (\<exists>p2. findPostById ''64b0000000000000000000a1''
               (snd (toggleLike hex24 ''64b0000000000000000000a1''
                       (Some ''64b000000000000000000002'')
                       (snd (toggleLike hex24 ''64b0000000000000000000a1''
                               (Some ''64b000000000000000000002'') exampleDb)))) = Some p2
          \<and> length (likes p2) = 1
          \<and> set (map like_user (likes p2)) = {''64b000000000000000000002''})"
proof -
  have h1: "hex24 ''64b0000000000000000000a1''" by (simp add: hex24_def)
  have h2: "findPostById ''64b0000000000000000000a1'' exampleDb = Some post1"
    by (simp add: example_defs)
  have hb: "findUserById ''64b000000000000000000002'' exampleDb = Some bob"
    and hc: "findUserById ''64b000000000000000000003'' exampleDb = Some carol"
    by (simp_all add: example_defs)
  have h4: "findUserById (author post1) exampleDb = Some alice"
    by (simp add: example_defs)
  have gb: "isFollowingOrFollower bob alice post1 ''64b000000000000000000002''"
    and gc: "\<not> isFollowingOrFollower carol alice post1 ''64b000000000000000000003''"
    by (simp_all add: example_defs isFollowingOrFollower_def)
  have h6: "distinct (map like_user (likes post1))" by (simp add: post1_def)
  have c: "spec_isConnected exampleDb ''64b000000000000000000003'' ''64b000000000000000000001''"
    by (simp add: spec_isConnected_def follows_def example_defs)
  have l: "map like_user (likes post1) = [''64b000000000000000000002'']"
    and n: "length (likes post1) = 1"
    by (simp_all add: post1_def)
  note by_bob = toggleLike_twice_restores [where isValidObjectId = hex24
      and reqUser = "Some ''64b000000000000000000002''"
      and uid = "''64b000000000000000000002''" and currentUser = bob and postAuthor = alice,
      OF h2 h6, unfolded Let_def]
  note by_carol = toggleLike_twice_restores [where isValidObjectId = hex24
      and reqUser = "Some ''64b000000000000000000003''"
      and uid = "''64b000000000000000000003''" and currentUser = carol and postAuthor = alice,
      OF h2 h6, unfolded Let_def]
  from by_carol h1 hc h4 gc
  have 1: "snd (toggleLike hex24 ''64b0000000000000000000a1''
          (Some ''64b000000000000000000003'')
          (snd (toggleLike hex24 ''64b0000000000000000000a1''
                  (Some ''64b000000000000000000003'') exampleDb))) = exampleDb"
    by simp
  from by_bob h1 hb h4 gb
  have 2: "fst (fst (toggleLike hex24 ''64b0000000000000000000a1''
                 (Some ''64b000000000000000000002'') exampleDb)) = 200
   \<and> (\<exists>p1. findPostById ''64b0000000000000000000a1''
               (snd (toggleLike hex24 ''64b0000000000000000000a1''
                       (Some ''64b000000000000000000002'') exampleDb)) = Some p1
          \<and> ''64b000000000000000000002'' \<notin> set (map like_user (likes p1)))"
    unfolding l by simp
  from by_bob
  have 3: "\<exists>p2. findPostById ''64b0000000000000000000a1''
               (snd (toggleLike hex24 ''64b0000000000000000000a1''
                       (Some ''64b000000000000000000002'')
                       (snd (toggleLike hex24 ''64b0000000000000000000a1''
                               (Some ''64b000000000000000000002'') exampleDb)))) = Some p2
          \<and> length (likes p2) = 1
          \<and> set (map like_user (likes p2)) = {''64b000000000000000000002''}"
    unfolding l n by simp
  from h6 c 1 2 3 show ?thesis by blast
qed

section \<open>The gate of likes and comments\<close>

lemma find_member: "find P xs = Some x \<Longrightarrow> x \<in> set xs \<and> P x"
  by (induction xs) (auto split: if_splits)

lemma findUserById_member: "findUserById uid d = Some u \<Longrightarrow> u \<in> set (users d)"
  unfolding findUserById_def by (simp add: find_member)

lemma symmetric_edge:
  assumes "edgesSymmetric d"
    and "findUserById a d = Some ua"
    and "findUserById b d = Some ub"
  shows "(b \<in> set (following ua)) = (a \<in> set (followers ub))"
proof -
  have "ua \<in> set (users d)" "ub \<in> set (users d)"
    using assms(2,3) by (simp_all add: findUserById_member)
  with assms(1) have "(user_id ub \<in> set (following ua)) = (user_id ua \<in> set (followers ub))"
    unfolding edgesSymmetric_def by blast
  then show ?thesis using assms(2,3) by (simp add: findUserById_id)
qed

text \<open>
  Claim C1, as amended. For every like attempt, and every comment attempt with
  non-empty content, by an existing actor on an existing post whose author exists: the
  operation is refused with 403 (not connected), and nothing is written, exactly when
  the post's author is not in the actor's \<^verbatim>\<open>following\<close>, the actor is not in the
  author's \<^verbatim>\<open>followers\<close>, and the actor is not the author; otherwise it succeeds. Both
  list tests ask whether the actor follows the author: where the two sides of every edge
  agree, the second holds exactly when the first does. An author liking or commenting on
  their own post is always allowed.
\<close>

theorem like_comment_gate:
  assumes "isValidObjectId pid"
    and "findPostById pid d = Some p"
    and "findUserById uid d = Some currentUser"
    and "findUserById (author p) d = Some postAuthor"
    and "notEmpty content"
  shows "(if author p \<notin> set (following currentUser) \<and> uid \<notin> set (followers postAuthor)
             \<and> author p \<noteq> uid
          then toggleLike isValidObjectId pid (Some uid) d =
                 ((403, Message
                     ''You must follow this user or be their follower to like their posts''), d)
             \<and> addComment isValidObjectId newId pid content (Some uid) d =
                 ((403, Message
                     ''You must follow this user or be their follower to comment on their posts''), d)
          else fst (fst (toggleLike isValidObjectId pid (Some uid) d)) = 200
             \<and> fst (fst (addComment isValidObjectId newId pid content (Some uid) d)) = 200)
         \<and> (edgesSymmetric d \<longrightarrow>
              (uid \<in> set (followers postAuthor)) = follows d uid (author p))
         \<and> (author p = uid \<longrightarrow>
              fst (fst (toggleLike isValidObjectId pid (Some uid) d)) = 200
            \<and> fst (fst (addComment isValidObjectId newId pid content (Some uid) d)) = 200)"
proof -
  have gate: "isFollowingOrFollower currentUser postAuthor p uid =
      (\<not> (author p \<notin> set (following currentUser) \<and> uid \<notin> set (followers postAuthor)
          \<and> author p \<noteq> uid))"
    by (auto simp: isFollowingOrFollower_def)
  have like: "toggleLike isValidObjectId pid (Some uid) d =
      (if \<not> isFollowingOrFollower currentUser postAuthor p uid
       then ((403, Message
               ''You must follow this user or be their follower to like their posts''), d)
       else
         let likeIndex = findIndex (\<lambda>l. like_user l = uid) (likes p);
             p' = (if likeIndex > - 1
                   then p\<lparr>likes := splice1 likeIndex (likes p)\<rparr>
                   else p\<lparr>likes := likes p @ [\<lparr>like_user = uid\<rparr>]\<rparr>)
         in ((200, PostJson p'), savePost p' d))"
    using assms(1-4) by (simp add: toggleLike_def)
  have comment: "addComment isValidObjectId newId pid content (Some uid) d =
      (if \<not> isFollowingOrFollower currentUser postAuthor p uid
       then ((403, Message
               ''You must follow this user or be their follower to comment on their posts''), d)
       else
         let newComment = \<lparr>comment_id = newId, comment_user = uid,
                             comment_content = toString content\<rparr>;
             p' = p\<lparr>comments := comments p @ [newComment]\<rparr>
         in ((200, PostJson p'), savePost p' d))"
    using assms by (simp add: addComment_def check_def)
  have first: "(if author p \<notin> set (following currentUser) \<and> uid \<notin> set (followers postAuthor)
             \<and> author p \<noteq> uid
          then toggleLike isValidObjectId pid (Some uid) d =
                 ((403, Message
                     ''You must follow this user or be their follower to like their posts''), d)
             \<and> addComment isValidObjectId newId pid content (Some uid) d =
                 ((403, Message
                     ''You must follow this user or be their follower to comment on their posts''), d)
          else fst (fst (toggleLike isValidObjectId pid (Some uid) d)) = 200
             \<and> fst (fst (addComment isValidObjectId newId pid content (Some uid) d)) = 200)"
    unfolding like comment gate by (simp add: Let_def)
  have sym: "edgesSymmetric d \<longrightarrow>
              (uid \<in> set (followers postAuthor)) = follows d uid (author p)"
    using symmetric_edge [OF _ assms(3) assms(4)] assms(3) by (auto simp: follows_def)
  have own: "author p = uid \<longrightarrow>
              fst (fst (toggleLike isValidObjectId pid (Some uid) d)) = 200
            \<and> fst (fst (addComment isValidObjectId newId pid content (Some uid) d)) = 200"
    using first by auto
  from first sym own show ?thesis by blast
qed

theorem like_comment_gate_witness:
  "notEmpty (Some ''hi'')
   \<and> findUserById (author post1) exampleDb = Some alice
   \<and> toggleLike hex24 ''64b0000000000000000000a1'' (Some ''64b000000000000000000004'') exampleDb
       = ((403, Message
             ''You must follow this user or be their follower to like their posts''), exampleDb)
   \<and> addComment hex24 ''64b0000000000000000000c3'' ''64b0000000000000000000a1'' (Some ''hi'')
         (Some ''64b000000000000000000004'') exampleDb
       = ((403, Message
             ''You must follow this user or be their follower to comment on their posts''),
          exampleDb)
   \<and> fst (fst (toggleLike hex24 ''64b0000000000000000000a1''
                 (Some ''64b000000000000000000001'') exampleDb)) = 200
   \<and> fst (fst (addComment hex24 ''64b0000000000000000000c3'' ''64b0000000000000000000a1''
                 (Some ''hi'') (Some ''64b000000000000000000001'') exampleDb)) = 200"
proof -
  have h1: "hex24 ''64b0000000000000000000a1''" by (simp add: hex24_def)
  have h2: "findPostById ''64b0000000000000000000a1'' exampleDb = Some post1"
    by (simp add: example_defs)
  have hd: "findUserById ''64b000000000000000000004'' exampleDb = Some dave"
    by (simp add: example_defs)
  have ha: "findUserById ''64b000000000000000000001'' exampleDb = Some alice"
    by (simp add: example_defs)
  have h4: "findUserById (author post1) exampleDb = Some alice"
    by (simp add: example_defs)
  have h5: "notEmpty (Some ''hi'')" by (simp add: notEmpty_def toString_def)
  note stranger = like_comment_gate [where isValidObjectId = hex24
      and newId = "''64b0000000000000000000c3''", OF h1 h2 hd h4 h5]
  note own = like_comment_gate [where isValidObjectId = hex24
      and newId = "''64b0000000000000000000c3''", OF h1 h2 ha h4 h5]
  have e: "author post1 = ''64b000000000000000000001''"
    "following dave = []" "followers alice = [''64b000000000000000000002'']"
    by (simp_all add: post1_def dave_def alice_def)
  from stranger own h4 h5 show ?thesis unfolding e by simp
qed

text \<open>
  Claim C1 as stated fails: that the post's author follows the actor does not pass the
  gate. Alice, the author of the post, follows carol, so the two are connected in the
  specification's sense, and carol's like and comment are both refused with 403.
\<close>

theorem like_gate_counterexample:
  "follows exampleDb ''64b000000000000000000001'' ''64b000000000000000000003''
   \<and> spec_isConnected exampleDb ''64b000000000000000000003'' ''64b000000000000000000001''
   \<and> findPostById ''64b0000000000000000000a1'' exampleDb = Some post1
   \<and> author post1 = ''64b000000000000000000001''
   \<and> findUserById ''64b000000000000000000003'' exampleDb = Some carol
   \<and> edgesSymmetric exampleDb
   \<and> toggleLike hex24 ''64b0000000000000000000a1'' (Some ''64b000000000000000000003'') exampleDb
       = ((403, Message
             ''You must follow this user or be their follower to like their posts''), exampleDb)
   \<and> addComment hex24 ''64b0000000000000000000c3'' ''64b0000000000000000000a1'' (Some ''hi'')
         (Some ''64b000000000000000000003'') exampleDb
       = ((403, Message
             ''You must follow this user or be their follower to comment on their posts''),
          exampleDb)"
  by (simp add: example_defs follows_def spec_isConnected_def edgesSymmetric_def
      toggleLike_def addComment_def isFollowingOrFollower_def check_def notEmpty_def
      toString_def)

section \<open>Following\<close>

lemma find_map_field:
  assumes "find (\<lambda>x. k x = i) xs = Some y" and "\<And>x. k (f x) = k x"
  shows "find (\<lambda>x. k x = i) (map (\<lambda>x. if k x = j then f x else x) xs)
           = Some (if i = j then f y else y)"
  using assms by (induction xs) (auto split: if_splits)

lemma findUserById_saveFollowing:
  "findUserById i d = Some u \<Longrightarrow>
     findUserById i (saveFollowing c d)
       = Some (if i = user_id c then u\<lparr>following := following c\<rparr> else u)"
  using find_map_field [of user_id i "users d" u "\<lambda>v. v\<lparr>following := following c\<rparr>" "user_id c"]
  by (simp add: findUserById_def saveFollowing_def)

lemma findUserById_saveFollowers:
  "findUserById i d = Some u \<Longrightarrow>
     findUserById i (saveFollowers c d)
       = Some (if i = user_id c then u\<lparr>followers := followers c\<rparr> else u)"
  using find_map_field [of user_id i "users d" u "\<lambda>v. v\<lparr>followers := followers c\<rparr>" "user_id c"]
  by (simp add: findUserById_def saveFollowers_def)

text \<open>
  What the follow route does once its checks have passed, whatever the spelling of the
  path identifier: the two lists it writes, and the response.
\<close>

lemma toggleFollow_run:
  assumes "targetId \<noteq> []"
    and "isValidObjectId targetId"
    and "findUserById (castObjectId targetId) d = Some userToFollow"
    and "findUserById uid d = Some currentUser"
    and "targetId \<noteq> uid"
    and "F' = (if targetId \<in> set (following currentUser)
               then filter (\<lambda>userId. userId \<noteq> targetId) (following currentUser)
               else following currentUser @ [castObjectId targetId])"
    and "G' = (if targetId \<in> set (following currentUser)
               then filter (\<lambda>userId. userId \<noteq> uid) (followers userToFollow)
               else followers userToFollow @ [uid])"
  shows "toggleFollow isValidObjectId castObjectId targetId (Some uid) d =
           ((200, FollowJson
                    (if targetId \<in> set (following currentUser) then ''Unfollowed successfully''
                     else ''Followed successfully'')
                    (targetId \<notin> set (following currentUser)) (length G')),
            saveFollowers (userToFollow\<lparr>followers := G'\<rparr>)
              (saveFollowing (currentUser\<lparr>following := F'\<rparr>) d))"
  using assms(1-5) unfolding assms(6,7) by (simp add: toggleFollow_def Let_def)

text \<open>
  With the path identifier in the rendering of the target's stored identifier (the cast
  leaves it as it is) and an actor other than the target, the two saves write two
  different documents.
\<close>

lemma toggleFollow_stored:
  assumes t: "findUserById targetId d = Some userToFollow"
    and u: "findUserById uid d = Some currentUser"
    and ne: "targetId \<noteq> uid"
  shows "findUserById uid (saveFollowers (userToFollow\<lparr>followers := G'\<rparr>)
              (saveFollowing (currentUser\<lparr>following := F'\<rparr>) d))
           = Some (currentUser\<lparr>following := F'\<rparr>)"
    and "findUserById targetId (saveFollowers (userToFollow\<lparr>followers := G'\<rparr>)
              (saveFollowing (currentUser\<lparr>following := F'\<rparr>) d))
           = Some (userToFollow\<lparr>followers := G'\<rparr>)"
proof -
  have iu: "user_id currentUser = uid" and it: "user_id userToFollow = targetId"
    using t u by (simp_all add: findUserById_id)
  have "findUserById uid (saveFollowing (currentUser\<lparr>following := F'\<rparr>) d)
          = Some (currentUser\<lparr>following := F'\<rparr>)"
    using findUserById_saveFollowing [OF u, of "currentUser\<lparr>following := F'\<rparr>"] iu by simp
  from findUserById_saveFollowers [OF this, of "userToFollow\<lparr>followers := G'\<rparr>"]
  show "findUserById uid (saveFollowers (userToFollow\<lparr>followers := G'\<rparr>)
              (saveFollowing (currentUser\<lparr>following := F'\<rparr>) d))
           = Some (currentUser\<lparr>following := F'\<rparr>)"
    using it ne by simp
  have "findUserById targetId (saveFollowing (currentUser\<lparr>following := F'\<rparr>) d)
          = Some userToFollow"
    using findUserById_saveFollowing [OF t, of "currentUser\<lparr>following := F'\<rparr>"] iu ne by simp
  from findUserById_saveFollowers [OF this, of "userToFollow\<lparr>followers := G'\<rparr>"]
  show "findUserById targetId (saveFollowers (userToFollow\<lparr>followers := G'\<rparr>)
              (saveFollowing (currentUser\<lparr>following := F'\<rparr>) d))
           = Some (userToFollow\<lparr>followers := G'\<rparr>)"
    using it by simp
qed

lemma toggleFollow_keeps_symmetry:
  assumes sym: "edgesSymmetric d"
    and t: "findUserById targetId d = Some userToFollow"
    and u: "findUserById uid d = Some currentUser"
    and ne: "targetId \<noteq> uid"
    and F: "F' = (if targetId \<in> set (following currentUser)
               then filter (\<lambda>userId. userId \<noteq> targetId) (following currentUser)
               else following currentUser @ [targetId])"
    and G: "G' = (if targetId \<in> set (following currentUser)
               then filter (\<lambda>userId. userId \<noteq> uid) (followers userToFollow)
               else followers userToFollow @ [uid])"
  shows "edgesSymmetric (saveFollowers (userToFollow\<lparr>followers := G'\<rparr>)
              (saveFollowing (currentUser\<lparr>following := F'\<rparr>) d))"
proof -
  have iu: "user_id currentUser = uid" and it: "user_id userToFollow = targetId"
    using t u by (simp_all add: findUserById_id)
  have mu: "currentUser \<in> set (users d)" and mt: "userToFollow \<in> set (users d)"
    using t u by (simp_all add: findUserById_member)
  have old: "\<And>a b. a \<in> set (users d) \<Longrightarrow> b \<in> set (users d) \<Longrightarrow>
      (user_id b \<in> set (following a)) = (user_id a \<in> set (followers b))"
    using sym unfolding edgesSymmetric_def by blast
  have inF: "\<And>c. c \<noteq> targetId \<Longrightarrow> (c \<in> set F') = (c \<in> set (following currentUser))"
    unfolding F by auto
  have inG: "\<And>c. c \<noteq> uid \<Longrightarrow> (c \<in> set G') = (c \<in> set (followers userToFollow))"
    unfolding G by auto
  have edge: "(targetId \<in> set F') = (uid \<in> set G')"
    unfolding F G by auto
  define g where "g = (\<lambda>v::user. if user_id v = targetId then v\<lparr>followers := G'\<rparr>
                            else if user_id v = uid then v\<lparr>following := F'\<rparr> else v)"
  have us: "users (saveFollowers (userToFollow\<lparr>followers := G'\<rparr>)
              (saveFollowing (currentUser\<lparr>following := F'\<rparr>) d)) = map g (users d)"
    unfolding g_def using iu it ne by (auto simp: saveFollowers_def saveFollowing_def)
  have gid: "\<And>v. user_id (g v) = user_id v"
    by (simp add: g_def)
  have step: "(user_id b \<in> set (following (g a))) = (user_id a \<in> set (followers (g b)))"
    if a: "a \<in> set (users d)" and b: "b \<in> set (users d)" for a b
  proof -
    consider (tt) "user_id a = targetId" "user_id b = targetId"
      | (tu) "user_id a = targetId" "user_id b = uid"
      | (to) "user_id a = targetId" "user_id b \<noteq> targetId" "user_id b \<noteq> uid"
      | (ut) "user_id a = uid" "user_id b = targetId"
      | (uu) "user_id a = uid" "user_id b = uid"
      | (uo) "user_id a = uid" "user_id b \<noteq> targetId" "user_id b \<noteq> uid"
      | (ot) "user_id a \<noteq> targetId" "user_id a \<noteq> uid" "user_id b = targetId"
      | (ou) "user_id a \<noteq> targetId" "user_id a \<noteq> uid" "user_id b = uid"
      | (oo) "user_id a \<noteq> targetId" "user_id a \<noteq> uid"
             "user_id b \<noteq> targetId" "user_id b \<noteq> uid"
      by blast
    then show ?thesis
    proof cases
      case tt
      then show ?thesis using old [OF a mt] inG [of targetId] ne it by (simp add: g_def)
    next
      case tu
      then show ?thesis using old [OF a b] ne by (simp add: g_def)
    next
      case to
      then show ?thesis using old [OF a b] by (simp add: g_def)
    next
      case ut
      then show ?thesis using edge ne by (simp add: g_def)
    next
      case uu
      then show ?thesis using old [OF mu b] inF [of uid] ne iu by (simp add: g_def)
    next
      case uo
      then show ?thesis using old [OF mu b] inF [of "user_id b"] ne iu by (simp add: g_def)
    next
      case ot
      then show ?thesis using old [OF a mt] inG [of "user_id a"] it by (simp add: g_def)
    next
      case ou
      then show ?thesis using old [OF a b] ne by (simp add: g_def)
    next
      case oo
      then show ?thesis using old [OF a b] by (simp add: g_def)
    qed
  qed
  show ?thesis
    unfolding edgesSymmetric_def us using step gid by auto
qed

text \<open>
  What the route sets out to do, and does when the path identifier is spelled as the
  stored identifier renders and the actor is another user: it answers 200, it removes
  the target from the actor's \<^verbatim>\<open>following\<close> and the actor from the target's
  \<^verbatim>\<open>followers\<close> when the actor was following, it appends both otherwise, and it keeps
  the two sides of every edge in agreement.
\<close>

lemma toggleFollow_canonical:
  assumes ok: "targetId \<noteq> []" "isValidObjectId targetId"
    and c: "castObjectId targetId = targetId"
    and t: "findUserById targetId d = Some userToFollow"
    and u: "findUserById uid d = Some currentUser"
    and ne: "targetId \<noteq> uid"
  shows "\<exists>m n d'.
           toggleFollow isValidObjectId castObjectId targetId (Some uid) d
             = ((200, FollowJson m (targetId \<notin> set (following currentUser)) n), d')
         \<and> findUserById uid d' = Some (currentUser\<lparr>following :=
               (if targetId \<in> set (following currentUser)
                then filter (\<lambda>userId. userId \<noteq> targetId) (following currentUser)
                else following currentUser @ [targetId])\<rparr>)
         \<and> findUserById targetId d' = Some (userToFollow\<lparr>followers :=
               (if targetId \<in> set (following currentUser)
                then filter (\<lambda>userId. userId \<noteq> uid) (followers userToFollow)
                else followers userToFollow @ [uid])\<rparr>)
         \<and> (edgesSymmetric d \<longrightarrow> edgesSymmetric d')"
proof -
  define F' where "F' = (if targetId \<in> set (following currentUser)
               then filter (\<lambda>userId. userId \<noteq> targetId) (following currentUser)
               else following currentUser @ [targetId])"
  define G' where "G' = (if targetId \<in> set (following currentUser)
               then filter (\<lambda>userId. userId \<noteq> uid) (followers userToFollow)
               else followers userToFollow @ [uid])"
  have F'': "F' = (if targetId \<in> set (following currentUser)
               then filter (\<lambda>userId. userId \<noteq> targetId) (following currentUser)
               else following currentUser @ [castObjectId targetId])"
    by (simp add: F'_def c)
  have t': "findUserById (castObjectId targetId) d = Some userToFollow"
    using t c by simp
  note run = toggleFollow_run [where isValidObjectId = isValidObjectId
      and castObjectId = castObjectId, OF ok t' u ne F'' G'_def]
  note stored = toggleFollow_stored [OF t u ne, of G' F']
  have sym: "edgesSymmetric d \<longrightarrow>
      edgesSymmetric (saveFollowers (userToFollow\<lparr>followers := G'\<rparr>)
              (saveFollowing (currentUser\<lparr>following := F'\<rparr>) d))"
    using toggleFollow_keeps_symmetry [OF _ t u ne F'_def G'_def] by blast
  from run stored sym show ?thesis
    unfolding F'_def G'_def by blast
qed

lemma length_filter_neq_distinct:
  "distinct xs \<Longrightarrow> x \<in> set xs \<Longrightarrow> Suc (length (filter (\<lambda>y. y \<noteq> x) xs)) = length xs"
proof (induction xs)
  case Nil
  then show ?case by simp
next
  case (Cons a xs)
  show ?case
  proof (cases "a = x")
    case True
    with Cons.prems have "x \<notin> set xs" by simp
    then have "filter (\<lambda>y. y \<noteq> x) xs = xs" by (auto simp: filter_id_conv)
    with True show ?thesis by simp
  next
    case False
    with Cons show ?thesis by simp
  qed
qed

lemma follow_twice_lists:
  fixes F G :: "oid list"
  assumes "(t \<in> set F) = (u \<in> set G)"
    and "distinct G"
    and "F1 = (if t \<in> set F then filter (\<lambda>x. x \<noteq> t) F else F @ [t])"
    and "G1 = (if t \<in> set F then filter (\<lambda>x. x \<noteq> u) G else G @ [u])"
    and "F2 = (if t \<in> set F1 then filter (\<lambda>x. x \<noteq> t) F1 else F1 @ [t])"
    and "G2 = (if t \<in> set F1 then filter (\<lambda>x. x \<noteq> u) G1 else G1 @ [u])"
  shows "(t \<in> set F1) = (t \<notin> set F) \<and> (t \<in> set F2) = (t \<in> set F)
         \<and> (u \<in> set G2) = (u \<in> set G) \<and> length G2 = length G"
proof (cases "t \<in> set F")
  case True
  with assms(3) have F1: "t \<notin> set F1" by simp
  from True assms(1) have uG: "u \<in> set G" by simp
  from True assms(4) have G1: "G1 = filter (\<lambda>x. x \<noteq> u) G" by simp
  from F1 assms(5,6) have F2: "F2 = F1 @ [t]" and G2: "G2 = G1 @ [u]" by simp_all
  have "length G2 = length G"
    unfolding G2 G1 using length_filter_neq_distinct [OF assms(2) uG] by simp
  with True F1 uG show ?thesis by (simp add: F2 G2)
next
  case False
  with assms(3) have F1: "F1 = F @ [t]" by simp
  from False assms(1) have uG: "u \<notin> set G" by simp
  from False assms(4) have G1: "G1 = G @ [u]" by simp
  from F1 assms(5,6) have F2: "F2 = filter (\<lambda>x. x \<noteq> t) F1"
    and G2: "G2 = filter (\<lambda>x. x \<noteq> u) G1" by simp_all
  have "F2 = F" unfolding F2 F1 using False by (auto simp: filter_id_conv)
  moreover have "G2 = G" unfolding G2 G1 using uG by (auto simp: filter_id_conv)
  ultimately show ?thesis using False F1 by simp
qed

text \<open>
  In a store where the two sides of every edge agree and the target's \<^verbatim>\<open>followers\<close>
  hold no identifier twice, two such toggles in succession restore whether the actor
  follows the target, the specification's \<^verbatim>\<open>isConnected\<close> and the follower counts of
  both users.
\<close>

lemma toggleFollow_canonical_twice:
  assumes ok: "targetId \<noteq> []" "isValidObjectId targetId"
    and c: "castObjectId targetId = targetId"
    and u: "findUserById uid d = Some currentUser"
    and t: "findUserById targetId d = Some userToFollow"
    and ne: "uid \<noteq> targetId"
    and sym: "edgesSymmetric d"
    and dist: "distinct (followers userToFollow)"
  shows "\<exists>m1 n1 d1 m2 d2 currentUser2 userToFollow2.
           toggleFollow isValidObjectId castObjectId targetId (Some uid) d
             = ((200, FollowJson m1 (targetId \<notin> set (following currentUser)) n1), d1)
         \<and> toggleFollow isValidObjectId castObjectId targetId (Some uid) d1
             = ((200, FollowJson m2 (targetId \<in> set (following currentUser))
                        (length (followers userToFollow))), d2)
         \<and> follows d1 uid targetId = (\<not> follows d uid targetId)
         \<and> findUserById uid d2 = Some currentUser2
         \<and> findUserById targetId d2 = Some userToFollow2
         \<and> follows d2 uid targetId = follows d uid targetId
         \<and> spec_isConnected d2 uid targetId = spec_isConnected d uid targetId
         \<and> (uid \<in> set (followers userToFollow2)) = (uid \<in> set (followers userToFollow))
         \<and> length (followers userToFollow2) = length (followers userToFollow)
         \<and> length (followers currentUser2) = length (followers currentUser)"
proof -
  define F where "F = following currentUser"
  define G where "G = followers userToFollow"
  define F1 where "F1 = (if targetId \<in> set F then filter (\<lambda>x. x \<noteq> targetId) F else F @ [targetId])"
  define G1 where "G1 = (if targetId \<in> set F then filter (\<lambda>x. x \<noteq> uid) G else G @ [uid])"
  define F2 where "F2 = (if targetId \<in> set F1 then filter (\<lambda>x. x \<noteq> targetId) F1 else F1 @ [targetId])"
  define G2 where "G2 = (if targetId \<in> set F1 then filter (\<lambda>x. x \<noteq> uid) G1 else G1 @ [uid])"
  define c1 where "c1 = currentUser\<lparr>following := F1\<rparr>"
  define t1 where "t1 = userToFollow\<lparr>followers := G1\<rparr>"
  define d1 where "d1 = saveFollowers t1 (saveFollowing c1 d)"
  define c2 where "c2 = c1\<lparr>following := F2\<rparr>"
  define t2 where "t2 = t1\<lparr>followers := G2\<rparr>"
  define d2 where "d2 = saveFollowers t2 (saveFollowing c2 d1)"
  have ne': "targetId \<noteq> uid" using ne by simp
  have t': "findUserById (castObjectId targetId) d = Some userToFollow" using t c by simp
  have F1': "F1 = (if targetId \<in> set (following currentUser)
               then filter (\<lambda>userId. userId \<noteq> targetId) (following currentUser)
               else following currentUser @ [castObjectId targetId])"
    by (simp add: F1_def F_def c)
  have G1': "G1 = (if targetId \<in> set (following currentUser)
               then filter (\<lambda>userId. userId \<noteq> uid) (followers userToFollow)
               else followers userToFollow @ [uid])"
    by (simp add: G1_def F_def G_def)
  note run1 = toggleFollow_run [where isValidObjectId = isValidObjectId
      and castObjectId = castObjectId, OF ok t' u ne' F1' G1',
      folded c1_def t1_def, folded d1_def]
  note st1 = toggleFollow_stored [OF t u ne', of G1 F1, folded c1_def t1_def, folded d1_def]
  have t1': "findUserById (castObjectId targetId) d1 = Some t1" using st1(2) c by simp
  have F2': "F2 = (if targetId \<in> set (following c1)
               then filter (\<lambda>userId. userId \<noteq> targetId) (following c1)
               else following c1 @ [castObjectId targetId])"
    by (simp add: F2_def c1_def c)
  have G2': "G2 = (if targetId \<in> set (following c1)
               then filter (\<lambda>userId. userId \<noteq> uid) (followers t1)
               else followers t1 @ [uid])"
    by (simp add: G2_def c1_def t1_def)
  note run2 = toggleFollow_run [where isValidObjectId = isValidObjectId
      and castObjectId = castObjectId, OF ok t1' st1(1) ne' F2' G2',
      folded c2_def t2_def, folded d2_def]
  note st2 = toggleFollow_stored [OF st1(2) st1(1) ne', of G2 F2,
      folded c2_def t2_def, folded d2_def]
  have edge: "(targetId \<in> set F) = (uid \<in> set G)"
    unfolding F_def G_def by (rule symmetric_edge [OF sym u t])
  from follow_twice_lists [OF edge dist [folded G_def] F1_def G1_def F2_def G2_def]
  have flip: "(targetId \<in> set F1) = (targetId \<notin> set F)"
    and restored: "(targetId \<in> set F2) = (targetId \<in> set F)"
    and mem: "(uid \<in> set G2) = (uid \<in> set G)"
    and len: "length G2 = length G"
    by blast+
  have f0: "follows d uid targetId = (targetId \<in> set F)"
    using u by (simp add: follows_def F_def)
  have f1: "follows d1 uid targetId = (targetId \<in> set F1)"
    using st1(1) by (simp add: follows_def c1_def)
  have f2: "follows d2 uid targetId = (targetId \<in> set F2)"
    using st2(1) by (simp add: follows_def c2_def)
  have b0: "follows d targetId uid = (uid \<in> set (following userToFollow))"
    using t by (simp add: follows_def)
  have b2: "follows d2 targetId uid = (uid \<in> set (following userToFollow))"
    using st2(2) by (simp add: follows_def t2_def t1_def)
  have conn: "spec_isConnected d2 uid targetId = spec_isConnected d uid targetId"
    unfolding spec_isConnected_def f0 f2 b0 b2 restored ..
  have r1: "toggleFollow isValidObjectId castObjectId targetId (Some uid) d
             = ((200, FollowJson
                   (if targetId \<in> set (following currentUser) then ''Unfollowed successfully''
                    else ''Followed successfully'')
                   (targetId \<notin> set (following currentUser)) (length G1)), d1)"
    using run1 .
  have r2: "toggleFollow isValidObjectId castObjectId targetId (Some uid) d1
             = ((200, FollowJson
                   (if targetId \<in> set (following c1) then ''Unfollowed successfully''
                    else ''Followed successfully'')
                   (targetId \<in> set (following currentUser))
                   (length (followers userToFollow))), d2)"
    using run2 flip len by (simp add: c1_def F_def G_def)
  have m: "(uid \<in> set (followers t2)) = (uid \<in> set (followers userToFollow))"
    and l: "length (followers t2) = length (followers userToFollow)"
    and lc: "length (followers c2) = length (followers currentUser)"
    using mem len by (simp_all add: t2_def c2_def c1_def G_def)
  from r1 r2 st2 conn m l lc f0 f1 f2 flip restored show ?thesis
    by blast
qed

text \<open>
  Claim C5: every successful follow toggle updates both sides of the edge together,
  removing the target from the actor's \<^verbatim>\<open>following\<close> and the actor from the target's
  \<^verbatim>\<open>followers\<close> when the actor was following the target, and adding them otherwise.
  The route does not do so for every path identifier it accepts. An upper-case digit
  passes the validity test and \<^verbatim>\<open>findById\<close> casts it, but \<^verbatim>\<open>following.includes(id)\<close>
  compares the string as it was sent: bob, who follows alice, is answered
  \<^verbatim>\<open>Followed successfully\<close> and both lists get a second entry, where the same request
  with the identifier as the store renders it unfollows.
\<close>

theorem toggleFollow_noncanonical_follows_again:
  "hex24 ''64B000000000000000000001''
   \<and> exampleCast ''64B000000000000000000001'' = ''64b000000000000000000001''
   \<and> findUserById ''64b000000000000000000001'' exampleDb = Some alice
   \<and> findUserById ''64b000000000000000000002'' exampleDb = Some bob
   \<and> follows exampleDb ''64b000000000000000000002'' ''64b000000000000000000001''
   \<and> toggleFollow hex24 exampleCast ''64B000000000000000000001''
         (Some ''64b000000000000000000002'') exampleDb
       = ((200, FollowJson ''Followed successfully'' True 2),
          exampleDb\<lparr>users :=
            [alice\<lparr>followers := [''64b000000000000000000002'', ''64b000000000000000000002'']\<rparr>,
             bob\<lparr>following := [''64b000000000000000000001'', ''64b000000000000000000001'']\<rparr>,
             carol, dave]\<rparr>)
   \<and> toggleFollow hex24 exampleCast ''64b000000000000000000001''
         (Some ''64b000000000000000000002'') exampleDb
       = ((200, FollowJson ''Unfollowed successfully'' False 0),
          exampleDb\<lparr>users :=
            [alice\<lparr>followers := []\<rparr>, bob\<lparr>following := []\<rparr>, carol, dave]\<rparr>)"
  by (simp add: toggleFollow_def example_defs exampleCast_def lowerHexDigit_def follows_def
      saveFollowing_def saveFollowers_def Let_def)

text \<open>
  Claim C4: for all existing users A and B with A \<noteq> B, a follow toggle of A on B
  followed immediately by the same toggle restores \<^verbatim>\<open>isConnected(A,B)\<close> and the
  follower counts of both users. With the path identifier of the previous example both
  toggles take the follow branch: alice's follower count goes from 1 to 2 to 3.
\<close>

theorem toggleFollow_noncanonical_twice:
  "findUserById ''64b000000000000000000001'' exampleDb = Some alice
   \<and> length (followers alice) = 1
   \<and> fst (toggleFollow hex24 exampleCast ''64B000000000000000000001''
            (Some ''64b000000000000000000002'') exampleDb)
       = (200, FollowJson ''Followed successfully'' True 2)
   \<and> fst (toggleFollow hex24 exampleCast ''64B000000000000000000001''
            (Some ''64b000000000000000000002'')
            (snd (toggleFollow hex24 exampleCast ''64B000000000000000000001''
                    (Some ''64b000000000000000000002'') exampleDb)))
       = (200, FollowJson ''Followed successfully'' True 3)
   \<and> findUserById ''64b000000000000000000001''
         (snd (toggleFollow hex24 exampleCast ''64B000000000000000000001''
                 (Some ''64b000000000000000000002'')
                 (snd (toggleFollow hex24 exampleCast ''64B000000000000000000001''
                         (Some ''64b000000000000000000002'') exampleDb))))
       = Some (alice\<lparr>followers := [''64b000000000000000000002'',
                  ''64b000000000000000000002'', ''64b000000000000000000002'']\<rparr>)"
  by (simp add: toggleFollow_def example_defs exampleCast_def lowerHexDigit_def
      saveFollowing_def saveFollowers_def Let_def)

section \<open>Login and registration\<close>

text \<open>
  Claim C6. For every login request with a well-formed email, the response when the
  email matches no user is identical, in status and in body, to the response when the
  email matches a user and the verification of the password fails: with a password in
  the request both are 400 with the message \<^verbatim>\<open>Invalid credentials\<close>, and without one
  both are the same validation failure.
\<close>

theorem login_uniform_error:
  assumes "isEmail (toString remail1)"
    and "isEmail (toString remail2)"
    and "find (\<lambda>u. email u = toString remail1) (users d1) = None"
    and "find (\<lambda>u. email u = toString remail2) (users d2) = Some u"
    and "\<not> comparePassword u (toString rpassword)"
  shows "login isEmail comparePassword generateToken remail1 rpassword d1
           = login isEmail comparePassword generateToken remail2 rpassword d2
         \<and> (rpassword \<noteq> None \<longrightarrow>
              login isEmail comparePassword generateToken remail1 rpassword d1
                = (400, Message ''Invalid credentials'')
            \<and> login isEmail comparePassword generateToken remail2 rpassword d2
                = (400, Message ''Invalid credentials''))"
  using assms by (simp add: login_def check_def exists_field_def)

theorem login_uniform_error_witness:
  "exampleIsEmail ''nobody@example.com'' \<and> exampleIsEmail ''alice@example.com''
   \<and> find (\<lambda>u. email u = ''alice@example.com'') (users exampleDb) = Some alice
   \<and> login exampleIsEmail exampleComparePassword exampleToken
         (Some ''nobody@example.com'') (Some ''wonder'') exampleDb
       = (400, Message ''Invalid credentials'')
   \<and> login exampleIsEmail exampleComparePassword exampleToken
         (Some ''alice@example.com'') (Some ''wonder'') exampleDb
       = (400, Message ''Invalid credentials'')"
proof -
  have h1: "exampleIsEmail (toString (Some ''nobody@example.com''))"
    and h2: "exampleIsEmail (toString (Some ''alice@example.com''))"
    by (simp_all add: exampleIsEmail_def toString_def)
  have h3: "find (\<lambda>u. email u = toString (Some ''nobody@example.com'')) (users exampleDb) = None"
    by (simp add: example_defs toString_def)
  have h4: "find (\<lambda>u. email u = toString (Some ''alice@example.com'')) (users exampleDb)
              = Some alice"
    by (simp add: example_defs toString_def)
  have h5: "\<not> exampleComparePassword alice (toString (Some ''wonder''))"
    by (simp add: exampleComparePassword_def exampleHash_def alice_def toString_def)
  from login_uniform_error [where isEmail = exampleIsEmail
      and comparePassword = exampleComparePassword and generateToken = exampleToken,
      OF h1 h2 h3 h4 h5] h1 h2 h4
  show ?thesis by (simp add: toString_def)
qed

text \<open>
  Claim C10. Registration rejects every request whose username has fewer than 3
  characters, whose password has fewer than 6, or whose email is not well-formed: the
  response is 400 with the messages of the failed validators, whatever the store holds
  (no duplicate check is consulted), and the store is returned unchanged, so no user
  record is created.
\<close>

theorem register_rejects_invalid:
  assumes "length (toString rusername) < 3 \<or> length (toString rpassword) < 6
           \<or> \<not> isEmail (toString remail)"
  shows "register isEmail hash generateToken newId rusername remail rpassword d
           = ((400, Errors (registerErrors isEmail rusername remail rpassword)), d)
         \<and> registerErrors isEmail rusername remail rpassword \<noteq> []
         \<and> (''Username must be at least 3 characters''
               \<in> set (registerErrors isEmail rusername remail rpassword))
             = (length (toString rusername) < 3)
         \<and> (''Please enter a valid email''
               \<in> set (registerErrors isEmail rusername remail rpassword))
             = (\<not> isEmail (toString remail))
         \<and> (''Password must be at least 6 characters''
               \<in> set (registerErrors isEmail rusername remail rpassword))
             = (length (toString rpassword) < 6)"
proof -
  have ne: "registerErrors isEmail rusername remail rpassword \<noteq> []"
    using assms by (auto simp: registerErrors_def check_def isLength_def)
  have run: "register isEmail hash generateToken newId rusername remail rpassword d
           = ((400, Errors (registerErrors isEmail rusername remail rpassword)), d)"
    using ne by (simp add: register_def)
  have m1: "(''Username must be at least 3 characters''
               \<in> set (registerErrors isEmail rusername remail rpassword))
             = (length (toString rusername) < 3)"
    by (auto simp: registerErrors_def check_def isLength_def)
  have m2: "(''Please enter a valid email''
               \<in> set (registerErrors isEmail rusername remail rpassword))
             = (\<not> isEmail (toString remail))"
    by (auto simp: registerErrors_def check_def isLength_def)
  have m3: "(''Password must be at least 6 characters''
               \<in> set (registerErrors isEmail rusername remail rpassword))
             = (length (toString rpassword) < 6)"
    by (auto simp: registerErrors_def check_def isLength_def)
  from ne run m1 m2 m3 show ?thesis by blast
qed

theorem register_rejects_invalid_witness:
  "length ''al'' < 3
   \<and> register exampleIsEmail exampleHash exampleToken ''64b000000000000000000005''
         (Some ''al'') (Some ''alice@example.com'') (Some ''secret'') exampleDb
       = ((400, Errors [''Username must be at least 3 characters'']), exampleDb)
   \<and> register exampleIsEmail exampleHash exampleToken ''64b000000000000000000005''
         (Some ''eve'') (Some ''eve.example.com'') None exampleDb
       = ((400, Errors [''Please enter a valid email'',
                        ''Password must be at least 6 characters'']), exampleDb)"
proof -
  have h1: "length (toString (Some ''al'')) < 3 \<or> length (toString (Some ''secret'')) < 6
           \<or> \<not> exampleIsEmail (toString (Some ''alice@example.com''))"
    by (simp add: toString_def)
  have h2: "length (toString (Some ''eve'')) < 3 \<or> length (toString None) < 6
           \<or> \<not> exampleIsEmail (toString (Some ''eve.example.com''))"
    by (simp add: toString_def)
  have e1: "registerErrors exampleIsEmail (Some ''al'') (Some ''alice@example.com'')
              (Some ''secret'') = [''Username must be at least 3 characters'']"
    by (simp add: registerErrors_def check_def isLength_def toString_def exampleIsEmail_def)
  have e2: "registerErrors exampleIsEmail (Some ''eve'') (Some ''eve.example.com'') None
              = [''Please enter a valid email'', ''Password must be at least 6 characters'']"
    by (simp add: registerErrors_def check_def isLength_def toString_def exampleIsEmail_def)
  from register_rejects_invalid [where isEmail = exampleIsEmail and hash = exampleHash
      and generateToken = exampleToken and newId = "''64b000000000000000000005''"
      and d = exampleDb, OF h1]
    register_rejects_invalid [where isEmail = exampleIsEmail and hash = exampleHash
      and generateToken = exampleToken and newId = "''64b000000000000000000005''"
      and d = exampleDb, OF h2]
  show ?thesis unfolding e1 e2 by simp
qed

section \<open>Deleting a comment\<close>

lemma splice1_find:
  "find P xs = Some c \<Longrightarrow> splice1 (findIndex P xs) xs = remove1 c xs"
proof (induction xs)
  case Nil
  then show ?case by simp
next
  case (Cons x xs)
  show ?case
  proof (cases "P x")
    case True
    with Cons.prems show ?thesis by (simp add: splice1_def)
  next
    case False
    with Cons.prems have f: "find P xs = Some c" by simp
    then have ne: "findIndex P xs \<noteq> - 1" using findIndex_find_None [of P xs] by simp
    have ge: "0 \<le> findIndex P xs" using findIndex_found [OF ne] by simp
    have "P c" using f by (simp add: find_member)
    with False have "x \<noteq> c" by auto
    with Cons.IH [OF f] False ne ge show ?thesis
      by (auto simp: Let_def splice1_def nat_add_distrib)
  qed
qed

text \<open>
  Claim C8. For well-formed identifiers and an authenticated actor: deleting a comment
  answers 404 when the post is absent and 404 when the post has no comment with the
  given identifier; for a comment of the post it succeeds, removing that comment,
  exactly when the actor is the comment's author, and answers 403 for every other
  actor, the post's author included. The comment of a given identifier is the first one
  of the post that carries it.
\<close>

theorem deleteComment_authorization:
  assumes "isValidObjectId pid" and "isValidObjectId cid"
  shows "(findPostById pid d = None \<longrightarrow>
            deleteComment isValidObjectId pid cid (Some uid) d
              = ((404, Message ''Post not found''), d))
       \<and> (findPostById pid d = Some p \<and> find (\<lambda>c. comment_id c = cid) (comments p) = None \<longrightarrow>
            deleteComment isValidObjectId pid cid (Some uid) d
              = ((404, Message ''Comment not found''), d))
       \<and> (findPostById pid d = Some p \<and> find (\<lambda>c. comment_id c = cid) (comments p) = Some c
            \<and> comment_user c \<noteq> uid \<longrightarrow>
            deleteComment isValidObjectId pid cid (Some uid) d
              = ((403, Message ''Not authorized to delete this comment''), d))
       \<and> (findPostById pid d = Some p \<and> find (\<lambda>c. comment_id c = cid) (comments p) = Some c
            \<and> comment_user c = uid \<longrightarrow>
            deleteComment isValidObjectId pid cid (Some uid) d
              = ((200, Message ''Comment deleted''),
                 savePost (p\<lparr>comments := remove1 c (comments p)\<rparr>) d))"
proof -
  have nopost: "findPostById pid d = None \<longrightarrow>
            deleteComment isValidObjectId pid cid (Some uid) d
              = ((404, Message ''Post not found''), d)"
    using assms by (simp add: deleteComment_def)
  have nocomment: "findPostById pid d = Some p
            \<and> find (\<lambda>c. comment_id c = cid) (comments p) = None \<longrightarrow>
            deleteComment isValidObjectId pid cid (Some uid) d
              = ((404, Message ''Comment not found''), d)"
    using assms by (simp add: deleteComment_def findIndex_find_None)
  have found: "findIndex (\<lambda>c. comment_id c = cid) (comments p) \<noteq> - 1
       \<and> comments p ! nat (findIndex (\<lambda>c. comment_id c = cid) (comments p)) = c
       \<and> splice1 (findIndex (\<lambda>c. comment_id c = cid) (comments p)) (comments p)
           = remove1 c (comments p)"
    if f: "find (\<lambda>c. comment_id c = cid) (comments p) = Some c"
  proof -
    have ne: "findIndex (\<lambda>c. comment_id c = cid) (comments p) \<noteq> - 1"
      using f findIndex_find_None [of "\<lambda>c. comment_id c = cid" "comments p"] by simp
    from findIndex_found [OF ne] f
    have "comments p ! nat (findIndex (\<lambda>c. comment_id c = cid) (comments p)) = c" by simp
    with ne splice1_find [OF f] show ?thesis by simp
  qed
  have other: "findPostById pid d = Some p
            \<and> find (\<lambda>c. comment_id c = cid) (comments p) = Some c
            \<and> comment_user c \<noteq> uid \<longrightarrow>
            deleteComment isValidObjectId pid cid (Some uid) d
              = ((403, Message ''Not authorized to delete this comment''), d)"
    using assms found by (simp add: deleteComment_def Let_def)
  have own: "findPostById pid d = Some p
            \<and> find (\<lambda>c. comment_id c = cid) (comments p) = Some c
            \<and> comment_user c = uid \<longrightarrow>
            deleteComment isValidObjectId pid cid (Some uid) d
              = ((200, Message ''Comment deleted''),
                 savePost (p\<lparr>comments := remove1 c (comments p)\<rparr>) d)"
    using assms found by (simp add: deleteComment_def Let_def)
  from nopost nocomment other own show ?thesis by blast
qed

theorem deleteComment_authorization_witness:
  "hex24 ''64b0000000000000000000a1'' \<and> hex24 ''64b0000000000000000000c1''
   \<and> hex24 ''64b0000000000000000000a9'' \<and> hex24 ''64b0000000000000000000c9''
   \<and> author post1 = ''64b000000000000000000001''
   \<and> deleteComment hex24 ''64b0000000000000000000a9'' ''64b0000000000000000000c1''
         (Some ''64b000000000000000000002'') exampleDb
       = ((404, Message ''Post not found''), exampleDb)
   \<and> deleteComment hex24 ''64b0000000000000000000a1'' ''64b0000000000000000000c9''
         (Some ''64b000000000000000000002'') exampleDb
       = ((404, Message ''Comment not found''), exampleDb)
   \<and> deleteComment hex24 ''64b0000000000000000000a1'' ''64b0000000000000000000c1''
         (Some ''64b000000000000000000001'') exampleDb
       = ((403, Message ''Not authorized to delete this comment''), exampleDb)
   \<and> deleteComment hex24 ''64b0000000000000000000a1'' ''64b0000000000000000000c1''
         (Some ''64b000000000000000000002'') exampleDb
       = ((200, Message ''Comment deleted''),
          savePost (post1\<lparr>comments := [\<lparr>comment_id = ''64b0000000000000000000c2'',
                comment_user = ''64b000000000000000000001'',
                comment_content = ''thanks''\<rparr>]\<rparr>) exampleDb)"
proof -
  have v: "hex24 ''64b0000000000000000000a1''" "hex24 ''64b0000000000000000000c1''"
    "hex24 ''64b0000000000000000000a9''" "hex24 ''64b0000000000000000000c9''"
    by (simp_all add: hex24_def)
  have p: "findPostById ''64b0000000000000000000a1'' exampleDb = Some post1"
    and np: "findPostById ''64b0000000000000000000a9'' exampleDb = None"
    by (simp_all add: example_defs)
  have c1: "find (\<lambda>c. comment_id c = ''64b0000000000000000000c1'') (comments post1)
              = Some \<lparr>comment_id = ''64b0000000000000000000c1'',
                      comment_user = ''64b000000000000000000002'', comment_content = ''nice''\<rparr>"
    and c9: "find (\<lambda>c. comment_id c = ''64b0000000000000000000c9'') (comments post1) = None"
    by (simp_all add: post1_def)
  have a: "author post1 = ''64b000000000000000000001''" by (simp add: post1_def)
  have r: "remove1 \<lparr>comment_id = ''64b0000000000000000000c1'',
                      comment_user = ''64b000000000000000000002'', comment_content = ''nice''\<rparr>
             (comments post1)
           = [\<lparr>comment_id = ''64b0000000000000000000c2'',
                comment_user = ''64b000000000000000000001'', comment_content = ''thanks''\<rparr>]"
    by (simp add: post1_def)
  note missing_post = deleteComment_authorization [where isValidObjectId = hex24
      and d = exampleDb and uid = "''64b000000000000000000002''", OF v(3) v(2)]
  note missing_comment = deleteComment_authorization [where isValidObjectId = hex24
      and d = exampleDb and uid = "''64b000000000000000000002''" and p = post1, OF v(1) v(4)]
  note post_author = deleteComment_authorization [where isValidObjectId = hex24
      and d = exampleDb and uid = "''64b000000000000000000001''" and p = post1
      and c = "\<lparr>comment_id = ''64b0000000000000000000c1'',
          comment_user = ''64b000000000000000000002'', comment_content = ''nice''\<rparr>", OF v(1) v(2)]
  note comment_author = deleteComment_authorization [where isValidObjectId = hex24
      and d = exampleDb and uid = "''64b000000000000000000002''" and p = post1
      and c = "\<lparr>comment_id = ''64b0000000000000000000c1'',
          comment_user = ''64b000000000000000000002'', comment_content = ''nice''\<rparr>", OF v(1) v(2)]
  from missing_post np have 1: "deleteComment hex24 ''64b0000000000000000000a9''
         ''64b0000000000000000000c1'' (Some ''64b000000000000000000002'') exampleDb
       = ((404, Message ''Post not found''), exampleDb)" by blast
  from missing_comment p c9 have 2: "deleteComment hex24 ''64b0000000000000000000a1''
         ''64b0000000000000000000c9'' (Some ''64b000000000000000000002'') exampleDb
       = ((404, Message ''Comment not found''), exampleDb)" by blast
  from post_author p c1 have 3: "deleteComment hex24 ''64b0000000000000000000a1''
         ''64b0000000000000000000c1'' (Some ''64b000000000000000000001'') exampleDb
       = ((403, Message ''Not authorized to delete this comment''), exampleDb)" by simp
  from comment_author p c1 r have 4: "deleteComment hex24 ''64b0000000000000000000a1''
         ''64b0000000000000000000c1'' (Some ''64b000000000000000000002'') exampleDb
       = ((200, Message ''Comment deleted''),
          savePost (post1\<lparr>comments := [\<lparr>comment_id = ''64b0000000000000000000c2'',
                comment_user = ''64b000000000000000000001'',
                comment_content = ''thanks''\<rparr>]\<rparr>) exampleDb)" by simp
  from v a 1 2 3 4 show ?thesis by simp
qed

section \<open>Post content\<close>

text \<open>
  Claim C7, as amended. For every post-create and post-update request and every Post
  schema: the operation fails with the validation error \<^verbatim>\<open>Content is required\<close> (400,
  nothing written) whenever the supplied content is absent or the empty string, and
  for no other content. Content that is not empty, content of white space only
  included, passes the route's validator, which does not trim, and is handed to the
  Post model as given; the schema then decides: a save it refuses answers 500 with
  nothing written, and a save it accepts answers 201 for a creation by an authenticated
  user, and 200 for the update of an existing post by its author, with the document as
  the schema stores it.
\<close>

theorem content_validation:
  "(toString content = [] \<longrightarrow>
      createPost postSchema newId content reqUser d
        = ((400, Errors [''Content is required'']), d)
    \<and> updatePost postSchema isValidObjectId pid content reqUser d
        = ((400, Errors [''Content is required'']), d))
   \<and> (toString content \<noteq> [] \<longrightarrow>
        fst (fst (createPost postSchema newId content reqUser d)) \<noteq> 400
      \<and> fst (updatePost postSchema isValidObjectId pid content reqUser d)
          \<noteq> (400, Errors [''Content is required''])
      \<and> post_content (newPost newId uid (toString content)) = toString content
      \<and> createPost postSchema newId content (Some uid) d
          = (case postSchema (newPost newId uid (toString content)) of
               None \<Rightarrow> ((500, Message ''Server error''), d)
             | Some p' \<Rightarrow> ((201, PostJson p'), d\<lparr>posts := posts d @ [p']\<rparr>)))
   \<and> (toString content \<noteq> [] \<and> isValidObjectId pid \<and> findPostById pid d = Some p
        \<and> author p = uid \<longrightarrow>
        updatePost postSchema isValidObjectId pid content (Some uid) d
          = (case postSchema (p\<lparr>post_content := toString content\<rparr>) of
               None \<Rightarrow> ((500, Message ''Server error''), d)
             | Some p' \<Rightarrow> ((200, PostJson p'), savePost p' d)))"
  by (auto simp: createPost_def updatePost_def check_def notEmpty_def newPost_def Let_def
      split: option.splits)

theorem content_validation_witness:
  "createPost acceptingSchema ''64b0000000000000000000a2'' None
       (Some ''64b000000000000000000001'') exampleDb
     = ((400, Errors [''Content is required'']), exampleDb)
   \<and> updatePost trimmingSchema hex24 ''64b0000000000000000000a1'' (Some [])
        (Some ''64b000000000000000000001'') exampleDb
     = ((400, Errors [''Content is required'']), exampleDb)
   \<and> createPost acceptingSchema ''64b0000000000000000000a2'' (Some '' hi '')
        (Some ''64b000000000000000000001'') exampleDb
     = ((201, PostJson (newPost ''64b0000000000000000000a2'' ''64b000000000000000000001''
                          '' hi '')),
        exampleDb\<lparr>posts := posts exampleDb
           @ [newPost ''64b0000000000000000000a2'' ''64b000000000000000000001'' '' hi '']\<rparr>)
   \<and> updatePost trimmingSchema hex24 ''64b0000000000000000000a1'' (Some '' hi '')
        (Some ''64b000000000000000000001'') exampleDb
     = ((200, PostJson (post1\<lparr>post_content := ''hi''\<rparr>)),
        savePost (post1\<lparr>post_content := ''hi''\<rparr>) exampleDb)"
proof -
  have v: "hex24 ''64b0000000000000000000a1''" by (simp add: hex24_def)
  have p: "findPostById ''64b0000000000000000000a1'' exampleDb = Some post1"
    by (simp add: example_defs)
  have a: "author post1 = ''64b000000000000000000001''" by (simp add: post1_def)
  have t: "toString None = []" "toString (Some []) = []" "toString (Some '' hi '') = '' hi ''"
    by (simp_all add: toString_def)
  have s: "trimmingSchema (post1\<lparr>post_content := '' hi ''\<rparr>)
             = Some (post1\<lparr>post_content := ''hi''\<rparr>)"
    by (simp add: trimmingSchema_def trim_def isSpace_def)
  note absent = content_validation [where content = None and d = exampleDb
      and postSchema = acceptingSchema and newId = "''64b0000000000000000000a2''"
      and reqUser = "Some ''64b000000000000000000001''"]
  note empty = content_validation [where content = "Some []" and d = exampleDb
      and postSchema = trimmingSchema
      and isValidObjectId = hex24 and pid = "''64b0000000000000000000a1''"
      and reqUser = "Some ''64b000000000000000000001''"]
  note created = content_validation [where content = "Some '' hi ''" and d = exampleDb
      and postSchema = acceptingSchema and newId = "''64b0000000000000000000a2''"
      and uid = "''64b000000000000000000001''"]
  note updated = content_validation [where content = "Some '' hi ''" and d = exampleDb
      and postSchema = trimmingSchema
      and isValidObjectId = hex24 and pid = "''64b0000000000000000000a1''" and p = post1
      and uid = "''64b000000000000000000001''"]
  from absent t have 1: "createPost acceptingSchema ''64b0000000000000000000a2'' None
      (Some ''64b000000000000000000001'') exampleDb
     = ((400, Errors [''Content is required'']), exampleDb)" by simp
  from empty t have 2: "updatePost trimmingSchema hex24 ''64b0000000000000000000a1'' (Some [])
        (Some ''64b000000000000000000001'') exampleDb
     = ((400, Errors [''Content is required'']), exampleDb)" by simp
  from created have 3: "createPost acceptingSchema ''64b0000000000000000000a2''
        (Some '' hi '') (Some ''64b000000000000000000001'') exampleDb
     = ((201, PostJson (newPost ''64b0000000000000000000a2'' ''64b000000000000000000001''
                          '' hi '')),
        exampleDb\<lparr>posts := posts exampleDb
           @ [newPost ''64b0000000000000000000a2'' ''64b000000000000000000001'' '' hi '']\<rparr>)"
    unfolding t by (simp add: acceptingSchema_def)
  from updated v p a have 4: "updatePost trimmingSchema hex24 ''64b0000000000000000000a1''
        (Some '' hi '') (Some ''64b000000000000000000001'') exampleDb
     = ((200, PostJson (post1\<lparr>post_content := ''hi''\<rparr>)),
        savePost (post1\<lparr>post_content := ''hi''\<rparr>) exampleDb)"
    unfolding t by (simp add: s)
  from 1 2 3 4 show ?thesis by simp
qed

text \<open>
  Claim C7 as stated fails on content that is white space only, whatever the schema
  does. Three spaces are empty after trimming. Under a schema that trims and requires
  the content, creation and update answer 500 \<^verbatim>\<open>Server error\<close>, which is not the
  validation failure; under a schema without validators they answer 201 and 200 and
  store the three spaces.
\<close>

theorem content_validation_counterexample:
  "spec_emptyContent (Some ''   '')
   \<and> createPost trimmingSchema ''64b0000000000000000000a2'' (Some ''   '')
        (Some ''64b000000000000000000001'') exampleDb
     = ((500, Message ''Server error''), exampleDb)
   \<and> updatePost trimmingSchema hex24 ''64b0000000000000000000a1'' (Some ''   '')
        (Some ''64b000000000000000000001'') exampleDb
     = ((500, Message ''Server error''), exampleDb)
   \<and> createPost acceptingSchema ''64b0000000000000000000a2'' (Some ''   '')
        (Some ''64b000000000000000000001'') exampleDb
     = ((201, PostJson \<lparr>post_id = ''64b0000000000000000000a2'',
                        author = ''64b000000000000000000001'', post_content = ''   '',
                        likes = [], comments = []\<rparr>),
        exampleDb\<lparr>posts := [post1,
           \<lparr>post_id = ''64b0000000000000000000a2'', author = ''64b000000000000000000001'',
            post_content = ''   '', likes = [], comments = []\<rparr>]\<rparr>)
   \<and> updatePost acceptingSchema hex24 ''64b0000000000000000000a1'' (Some ''   '')
        (Some ''64b000000000000000000001'') exampleDb
     = ((200, PostJson (post1\<lparr>post_content := ''   ''\<rparr>)),
        exampleDb\<lparr>posts := [post1\<lparr>post_content := ''   ''\<rparr>]\<rparr>)"
  by (simp add: spec_emptyContent_def trim_def isSpace_def toString_def createPost_def
      updatePost_def check_def notEmpty_def newPost_def savePost_def Let_def
      acceptingSchema_def trimmingSchema_def example_defs)

section \<open>Updating a note\<close>

lemma findNoteById_id: "findNoteById nid d = Some n \<Longrightarrow> note_id n = nid"
  unfolding findNoteById_def by (rule find_key)

lemma findNoteById_saveNote:
  "findNoteById nid d = Some n \<Longrightarrow> note_id n' = nid \<Longrightarrow>
     findNoteById nid (saveNote n' d) = Some n'"
  using find_replace_same [of note_id nid "noteDocs d" n n']
  by (simp add: findNoteById_def saveNote_def)

text \<open>
  Claim C9, as amended. For every update of an existing note by its owner with
  non-empty title and content that the Note schema accepts (a title of at most 200
  characters, content of at most 5000, tags of at most 50 each): the update answers 200
  with the note it has saved, in which \<^verbatim>\<open>isPinned\<close> is the note's prior value when the
  request leaves it out and the request's value when it gives true or false, and in
  which \<^verbatim>\<open>tags\<close> are empty when the request leaves them out (and the request's tags
  otherwise).
\<close>

theorem updateNote_fields:
  assumes "isValidObjectId nid"
    and "findNoteById nid d = Some n"
    and "note_user n = uid"
    and "notEmpty rtitle" and "notEmpty rcontent"
    and "length (toString rtitle) \<le> 200"
    and "length (toString rcontent) \<le> 5000"
    and "list_all (\<lambda>t. length t \<le> 50) (case rtags of None \<Rightarrow> [] | Some ts \<Rightarrow> ts)"
  shows "\<exists>n'. updateNote isValidObjectId nid rtitle rcontent rtags rpinned (Some uid) d
                 = ((200, NoteJson n'), saveNote n' d)
           \<and> findNoteById nid (saveNote n' d) = Some n'
           \<and> (rpinned = None \<longrightarrow> isPinned n' = isPinned n)
           \<and> (rpinned = Some True \<longrightarrow> isPinned n')
           \<and> (rpinned = Some False \<longrightarrow> \<not> isPinned n')
           \<and> (rtags = None \<longrightarrow> tags n' = [])
           \<and> (\<forall>ts. rtags = Some ts \<longrightarrow> tags n' = ts)
           \<and> title n' = toString rtitle \<and> note_content n' = toString rcontent
           \<and> note_user n' = note_user n"
proof -
  define n' where "n' = n\<lparr>title := toString rtitle,
                           note_content := toString rcontent,
                           tags := (case rtags of None \<Rightarrow> [] | Some ts \<Rightarrow> ts),
                           isPinned := (case rpinned of None \<Rightarrow> isPinned n | Some b \<Rightarrow> b)\<rparr>"
  have valid: "validNote n'"
    using assms(4-8) by (simp add: validNote_def n'_def notEmpty_def)
  have run: "updateNote isValidObjectId nid rtitle rcontent rtags rpinned (Some uid) d
                 = ((200, NoteJson n'), saveNote n' d)"
    using assms(1-5) valid unfolding n'_def by (simp add: updateNote_def check_def Let_def)
  have nid: "note_id n' = nid" using findNoteById_id [OF assms(2)] by (simp add: n'_def)
  have stored: "findNoteById nid (saveNote n' d) = Some n'"
    by (rule findNoteById_saveNote [OF assms(2) nid])
  have fields: "(rpinned = None \<longrightarrow> isPinned n' = isPinned n)
           \<and> (rpinned = Some True \<longrightarrow> isPinned n')
           \<and> (rpinned = Some False \<longrightarrow> \<not> isPinned n')
           \<and> (rtags = None \<longrightarrow> tags n' = [])
           \<and> (\<forall>ts. rtags = Some ts \<longrightarrow> tags n' = ts)
           \<and> title n' = toString rtitle \<and> note_content n' = toString rcontent
           \<and> note_user n' = note_user n"
    by (simp add: n'_def)
  from run stored fields show ?thesis by blast
qed

theorem updateNote_fields_witness:
  "notEmpty (Some ''todo today'') \<and> notEmpty (Some ''milk, eggs'')
   \<and> isPinned note1 \<and> tags note1 = [''home'']
   \<and> updateNote hex24 ''64b0000000000000000000f1'' (Some ''todo today'') (Some ''milk, eggs'')
        None None (Some ''64b000000000000000000001'') exampleDb
      = ((200, NoteJson (note1\<lparr>title := ''todo today'', note_content := ''milk, eggs'',
                                 tags := []\<rparr>)),
         saveNote (note1\<lparr>title := ''todo today'', note_content := ''milk, eggs'',
                          tags := []\<rparr>) exampleDb)
   \<and> updateNote hex24 ''64b0000000000000000000f1'' (Some ''todo today'') (Some ''milk, eggs'')
        (Some [''shop'']) (Some False) (Some ''64b000000000000000000001'') exampleDb
      = ((200, NoteJson (note1\<lparr>title := ''todo today'', note_content := ''milk, eggs'',
                                 tags := [''shop''], isPinned := False\<rparr>)),
         saveNote (note1\<lparr>title := ''todo today'', note_content := ''milk, eggs'',
                          tags := [''shop''], isPinned := False\<rparr>) exampleDb)"
proof -
  have h1: "hex24 ''64b0000000000000000000f1''" by (simp add: hex24_def)
  have h2: "findNoteById ''64b0000000000000000000f1'' exampleDb = Some note1"
    by (simp add: example_defs)
  have h3: "note_user note1 = ''64b000000000000000000001''" by (simp add: note1_def)
  have h4: "notEmpty (Some ''todo today'')" and h5: "notEmpty (Some ''milk, eggs'')"
    by (simp_all add: notEmpty_def toString_def)
  have h6: "length (toString (Some ''todo today'')) \<le> 200"
    and h7: "length (toString (Some ''milk, eggs'')) \<le> 5000"
    by (simp_all add: toString_def)
  have h8: "list_all (\<lambda>t. length t \<le> 50) (case None of None \<Rightarrow> [] | Some ts \<Rightarrow> ts)"
    and h8': "list_all (\<lambda>t. length t \<le> 50)
                (case Some [''shop''] of None \<Rightarrow> [] | Some ts \<Rightarrow> ts)"
    by simp_all
  have n: "isPinned note1" "tags note1 = [''home'']" by (simp_all add: note1_def)
  from updateNote_fields [where isValidObjectId = hex24 and rpinned = None,
      OF h1 h2 h3 h4 h5 h6 h7 h8] obtain a where
    a: "updateNote hex24 ''64b0000000000000000000f1'' (Some ''todo today'')
          (Some ''milk, eggs'') None None (Some ''64b000000000000000000001'') exampleDb
        = ((200, NoteJson a), saveNote a exampleDb)"
    by blast
  from updateNote_fields [where isValidObjectId = hex24 and rpinned = "Some False",
      OF h1 h2 h3 h4 h5 h6 h7 h8'] obtain b where
    b: "updateNote hex24 ''64b0000000000000000000f1'' (Some ''todo today'')
          (Some ''milk, eggs'') (Some [''shop'']) (Some False)
          (Some ''64b000000000000000000001'') exampleDb
        = ((200, NoteJson b), saveNote b exampleDb)"
    by blast
  have a': "a = note1\<lparr>title := ''todo today'', note_content := ''milk, eggs'', tags := []\<rparr>"
    using a h2 by (simp add: updateNote_def check_def notEmpty_def toString_def hex24_def
        validNote_def note1_def Let_def split: if_splits)
  have b': "b = note1\<lparr>title := ''todo today'', note_content := ''milk, eggs'',
                      tags := [''shop''], isPinned := False\<rparr>"
    using b h2 by (simp add: updateNote_def check_def notEmpty_def toString_def hex24_def
        validNote_def note1_def Let_def split: if_splits)
  from a b h4 h5 n show ?thesis unfolding a' b' by simp
qed

text \<open>
  Claim C9 as stated fails for an owner's update whose title is non-empty but longer
  than the schema allows: with a title of 201 characters and \<^verbatim>\<open>isPinned: false\<close>, the
  save is refused, the answer is 500, and the stored note keeps \<^verbatim>\<open>isPinned\<close> true
  and its tags, although the request leaves the tags out.
\<close>

theorem updateNote_fields_counterexample:
  "findNoteById ''64b0000000000000000000f1'' exampleDb = Some note1
   \<and> note_user note1 = ''64b000000000000000000001''
   \<and> isPinned note1 \<and> tags note1 = [''home'']
   \<and> notEmpty (Some (replicate 201 CHR ''a'')) \<and> notEmpty (Some ''milk'')
   \<and> updateNote hex24 ''64b0000000000000000000f1'' (Some (replicate 201 CHR ''a''))
        (Some ''milk'') None (Some False) (Some ''64b000000000000000000001'') exampleDb
      = ((500, Message ''Server error''), exampleDb)"
  by (simp add: updateNote_def check_def notEmpty_def toString_def validNote_def Let_def
      example_defs)

end
